theory Spec2Isabelle
  imports Complex_Main
begin

section \<open>Failures of the program\<close>

text \<open>
  A read or write outside a vector or matrix is undefined behaviour in the source (Eigen
  asserts on it in a debug build). In the model it is the error \<open>OutOfRange\<close>, and the
  function that meets it returns the error instead of a result. \<open>LengthError\<close> is
  \<^verbatim>\<open>std::length_error\<close>, \<open>StodOutOfRange\<close> the \<^verbatim>\<open>std::out_of_range\<close> that \<^verbatim>\<open>std::stod\<close>
  throws and the source does not catch, \<open>Uninitialised\<close> a read of a local variable that
  was never assigned.
\<close>

datatype error = OutOfRange | LengthError | StodOutOfRange | Uninitialised

definition readAt :: "'a list \<Rightarrow> nat \<Rightarrow> error + 'a" where
  "readAt xs i = (if i < length xs then Inr (xs ! i) else Inl OutOfRange)"

section \<open>Numbers of the program\<close>

text \<open>
  The simulator computes with C++ \<^verbatim>\<open>double\<close>. Three models are used.

  \<^item> Where a function only adds, multiplies, compares and divides by quantities that are
    not zero, a \<^verbatim>\<open>double\<close> is a \<^typ>\<open>real\<close>: arithmetic is exact, rounding and overflow
    are outside the model.
  \<^item> Where the source can divide by zero or returns NaN on purpose, a \<^verbatim>\<open>double\<close> is a
    value of the type \<open>double\<close> below: a finite number, one of the two infinities, or
    NaN. Operations on finite values are exact; operations that involve zero divisors,
    infinities and NaN follow IEEE 754. The sign of a zero is not represented (a zero
    divisor counts as \<open>+0\<close>).
  \<^item> Where a claim depends on the last bit of a result or on overflow, the operations are
    those of the second model followed by the rounding of a finite result to binary64
    (section \<open>Rounding to binary64\<close>).
\<close>

datatype double = Dbl real | PosInf | NegInf | NaN


fun dneg :: "double \<Rightarrow> double" where
  "dneg (Dbl x) = Dbl (- x)"
| "dneg PosInf = NegInf"
| "dneg NegInf = PosInf"
| "dneg NaN = NaN"

fun dadd :: "double \<Rightarrow> double \<Rightarrow> double" where
  "dadd NaN b = NaN"
| "dadd a NaN = NaN"
| "dadd (Dbl x) (Dbl y) = Dbl (x + y)"
| "dadd (Dbl x) PosInf = PosInf"
| "dadd (Dbl x) NegInf = NegInf"
| "dadd PosInf (Dbl y) = PosInf"
| "dadd NegInf (Dbl y) = NegInf"
| "dadd PosInf PosInf = PosInf"
| "dadd NegInf NegInf = NegInf"
| "dadd PosInf NegInf = NaN"
| "dadd NegInf PosInf = NaN"

definition dsub :: "double \<Rightarrow> double \<Rightarrow> double" where
  "dsub a b = dadd a (dneg b)"

text \<open>The sign of an infinite product or quotient: \<open>True\<close> is negative.\<close>

fun dsign :: "double \<Rightarrow> bool" where
  "dsign (Dbl x) = (x < 0)"
| "dsign PosInf = False"
| "dsign NegInf = True"
| "dsign NaN = False"

definition dinf :: "bool \<Rightarrow> double" where
  "dinf negative = (if negative then NegInf else PosInf)"

fun dmul :: "double \<Rightarrow> double \<Rightarrow> double" where
  "dmul NaN b = NaN"
| "dmul a NaN = NaN"
| "dmul (Dbl x) (Dbl y) = Dbl (x * y)"
| "dmul (Dbl x) b = (if x = 0 then NaN else dinf (dsign (Dbl x) \<noteq> dsign b))"
| "dmul a (Dbl y) = (if y = 0 then NaN else dinf (dsign a \<noteq> dsign (Dbl y)))"
| "dmul a b = dinf (dsign a \<noteq> dsign b)"

fun ddiv :: "double \<Rightarrow> double \<Rightarrow> double" where
  "ddiv NaN b = NaN"
| "ddiv a NaN = NaN"
| "ddiv (Dbl x) (Dbl y) =
     (if y \<noteq> 0 then Dbl (x / y)
      else if x = 0 then NaN
      else dinf (x < 0))"
| "ddiv (Dbl x) b = Dbl 0"
| "ddiv a (Dbl y) = dinf (dsign a \<noteq> dsign (Dbl y))"
| "ddiv a b = NaN"

fun dabs :: "double \<Rightarrow> double" where
  "dabs (Dbl x) = Dbl \<bar>x\<bar>"
| "dabs PosInf = PosInf"
| "dabs NegInf = PosInf"
| "dabs NaN = NaN"

text \<open>Comparisons with NaN are false.\<close>

fun dless :: "double \<Rightarrow> double \<Rightarrow> bool" where
  "dless NaN b = False"
| "dless a NaN = False"
| "dless (Dbl x) (Dbl y) = (x < y)"
| "dless a PosInf = (a \<noteq> PosInf)"
| "dless NegInf b = (b \<noteq> NegInf)"
| "dless a b = False"

fun dle :: "double \<Rightarrow> double \<Rightarrow> bool" where
  "dle NaN b = False"
| "dle a NaN = False"
| "dle a b = (a = b \<or> dless a b)"

section \<open>Rounding to binary64\<close>

text \<open>
  A \<^verbatim>\<open>double\<close> is an IEEE 754 binary64 number: 53 significant bits, the smallest
  positive number \<open>2\<^sup>-\<^sup>1\<^sup>0\<^sup>7\<^sup>4\<close>, the largest \<open>(2\<^sup>5\<^sup>3 - 1) 2\<^sup>9\<^sup>7\<^sup>1\<close>. The result of an operation
  is the exact result rounded to the nearest such number, to the one with an even last
  bit when two are equally near, and to an infinity when the rounded number exceeds the
  largest one. \<open>pow2 k\<close> is \<open>2\<^sup>k\<close> for an integer \<open>k\<close>; \<open>ulp x\<close> is the spacing of the binary64
  numbers around \<open>x\<close>.
\<close>

definition pow2 :: "int \<Rightarrow> real" where
  "pow2 k = (if 0 \<le> k then 2 ^ nat k else 1 / 2 ^ nat (- k))"

definition DBL_MAX :: real where
  "DBL_MAX = (2 ^ 53 - 1) * 2 ^ 971"

definition ulp :: "real \<Rightarrow> real" where
  "ulp x = pow2 (max (\<lfloor>log 2 \<bar>x\<bar>\<rfloor> - 52) (- 1074))"

definition roundHalfEven :: "real \<Rightarrow> int" where
  "roundHalfEven m =
     (let f = \<lfloor>m\<rfloor>; r = m - of_int f
      in if r < 1 / 2 then f
         else if 1 / 2 < r then f + 1
         else if even f then f else f + 1)"

definition roundToUlp :: "real \<Rightarrow> real" where
  "roundToUlp x = of_int (roundHalfEven (x / ulp x)) * ulp x"

definition round64 :: "real \<Rightarrow> double" where
  "round64 x =
     (if x = 0 then Dbl 0
      else if DBL_MAX < \<bar>roundToUlp x\<bar> then dinf (x < 0)
      else Dbl (roundToUlp x))"

text \<open>
  The four operations of the machine: the operation on the special values, then the
  rounding of a finite result.
\<close>

definition fl :: "double \<Rightarrow> double" where
  "fl d = (case d of Dbl x \<Rightarrow> round64 x | _ \<Rightarrow> d)"

definition add64 :: "double \<Rightarrow> double \<Rightarrow> double" where
  "add64 a b = fl (dadd a b)"

definition sub64 :: "double \<Rightarrow> double \<Rightarrow> double" where
  "sub64 a b = fl (dsub a b)"

definition mul64 :: "double \<Rightarrow> double \<Rightarrow> double" where
  "mul64 a b = fl (dmul a b)"

definition div64 :: "double \<Rightarrow> double \<Rightarrow> double" where
  "div64 a b = fl (ddiv a b)"

text \<open>The comparison \<^verbatim>\<open>==\<close>: NaN is equal to nothing.\<close>

fun deq :: "double \<Rightarrow> double \<Rightarrow> bool" where
  "deq NaN b = False"
| "deq a NaN = False"
| "deq a b = (a = b)"

section \<open>Curvature of a section: \<open>Acoustic3dSimulation::getCurvatureAngleShift\<close>\<close>

record Point2D =
  px :: double
  py :: double

record curvature =
  radius :: double
  angle :: double
  shift :: double

text \<open>
  \<^verbatim>\<open>atan2\<close> and \<^verbatim>\<open>fmod\<close> of the C library, here before rounding, with the values C fixes
  for infinities and NaN. \<^verbatim>\<open>signbit\<close> is \<open>dsign\<close>. The result of \<^verbatim>\<open>fmod\<close> is exact in
  binary64; that of \<^verbatim>\<open>atan2\<close> is rounded where it is used.
\<close>

definition atan2r :: "real \<Rightarrow> real \<Rightarrow> real" where
  "atan2r y x =
     (if 0 < x then arctan (y / x)
      else if x < 0 then (if 0 \<le> y then arctan (y / x) + pi else arctan (y / x) - pi)
      else if 0 < y then pi / 2
      else if y < 0 then - (pi / 2)
      else 0)"

fun atan2 :: "double \<Rightarrow> double \<Rightarrow> double" where
  "atan2 NaN x = NaN"
| "atan2 y NaN = NaN"
| "atan2 (Dbl y) (Dbl x) = Dbl (atan2r y x)"
| "atan2 (Dbl y) PosInf = Dbl 0"
| "atan2 (Dbl y) NegInf = Dbl (if y < 0 then - pi else pi)"
| "atan2 PosInf (Dbl x) = Dbl (pi / 2)"
| "atan2 NegInf (Dbl x) = Dbl (- (pi / 2))"
| "atan2 PosInf PosInf = Dbl (pi / 4)"
| "atan2 PosInf NegInf = Dbl (3 * pi / 4)"
| "atan2 NegInf PosInf = Dbl (- (pi / 4))"
| "atan2 NegInf NegInf = Dbl (- (3 * pi / 4))"

definition truncr :: "real \<Rightarrow> real" where
  "truncr x = (if 0 \<le> x then of_int \<lfloor>x\<rfloor> else of_int \<lceil>x\<rceil>)"

fun fmod :: "double \<Rightarrow> double \<Rightarrow> double" where
  "fmod NaN y = NaN"
| "fmod x NaN = NaN"
| "fmod (Dbl x) (Dbl y) = (if y = 0 then NaN else Dbl (x - y * truncr (x / y)))"
| "fmod (Dbl x) y = Dbl x"
| "fmod x y = NaN"

definition M_PI :: double where
  "M_PI = round64 pi"

text \<open>
  Every sum, difference, product and quotient of the source is one rounded operation;
  \<^verbatim>\<open>radius = radii[0]\<close> and then \<^verbatim>\<open>shift = radii[0] - radius\<close>.
\<close>

definition getCurvatureAngleShift ::
  "Point2D \<Rightarrow> Point2D \<Rightarrow> Point2D \<Rightarrow> Point2D \<Rightarrow> curvature" where
  "getCurvatureAngleShift P1 P2 N1 N2 =
    (let radii0 = div64 (sub64 (mul64 (sub64 (py P2) (py P1)) (px N2))
                               (mul64 (sub64 (px P2) (px P1)) (py N2)))
                        (sub64 (mul64 (px N2) (py N1)) (mul64 (py N2) (px N1)));
         radii1 = div64 (sub64 (mul64 (sub64 (py P2) (py P1)) (px N1))
                               (mul64 (sub64 (px P2) (px P1)) (py N1)))
                        (sub64 (mul64 (px N2) (py N1)) (mul64 (py N2) (px N1)));
         two_pi = mul64 (Dbl 2) M_PI;
         angles0 = fmod (add64 (fl (atan2 (py N1) (px N1))) two_pi) two_pi;
         angles1 = fmod (add64 (fl (atan2 (py N2) (px N2))) two_pi) two_pi;
         radius = radii0;
         shift = sub64 radii0 radius;
         angle = sub64 angles1 angles0;
         angle' =
           (if dless (sub64 two_pi (dabs angle)) (dabs angle)
            then (if dsign angle then sub64 two_pi (dabs angle)
                  else sub64 (dabs angle) two_pi)
            else angle)
     in \<lparr> radius = radius, angle = angle', shift = shift \<rparr>)"

text \<open>A point with finite coordinates.\<close>

definition point :: "real \<Rightarrow> real \<Rightarrow> Point2D" where
  "point x y = \<lparr> px = Dbl x, py = Dbl y \<rparr>"

text \<open>A coordinate that is a binary64 number; twice this number is beyond the largest one.\<close>

definition farAway :: real where
  "farAway = 2 ^ 1023"

section \<open>Simulation parameters\<close>

datatype propagationMethod = MAGNUS | STRAIGHT_TUBES

record simulationParameters =
  maxCutOnFreq :: real
  sndSpeed :: real
  volumicMass :: real
  thermalBndSpecAdm :: complex
  propMethod :: propagationMethod
  junctionLosses :: bool

section \<open>Selection of the modes: \<open>CrossSection2dFEM::computeModes\<close>\<close>

text \<open>
  The model starts after the generalized eigenproblem is solved: \<open>evs\<close> are
  \<^verbatim>\<open>eigenSolver.eigenvalues()\<close> and \<open>evecs\<close> the columns of \<^verbatim>\<open>eigenSolver.eigenvectors()\<close>.
  It ends when \<^verbatim>\<open>m_modesNumber\<close>, \<^verbatim>\<open>m_eigenFreqs\<close> and \<^verbatim>\<open>m_modes\<close> are set; the
  amplitudes and the multimodal matrices computed from them afterwards are left out.
\<close>

record modes =
  m_modesNumber :: nat
  m_eigenFreqs :: "double list"
  m_modes :: "real list list"

text \<open>\<^verbatim>\<open>sqrt(ev) * sndSpeed / 2. / M_PI\<close>; the square root of a negative number is NaN.\<close>

definition eigenFreq :: "real \<Rightarrow> real \<Rightarrow> double" where
  "eigenFreq c ev = (if ev < 0 then NaN else Dbl (sqrt ev * c / 2 / pi))"

definition maxWaveNumber :: "simulationParameters \<Rightarrow> real" where
  "maxWaveNumber p = (2 * pi * maxCutOnFreq p / sndSpeed p) ^ 2"

text \<open>
  The \<^verbatim>\<open>while\<close> loop of the branch \<^verbatim>\<open>m_modesNumber == 0\<close>. Its condition reads
  \<^verbatim>\<open>eigenvalues()[idx]\<close> first and tests \<^verbatim>\<open>idx < eigenvalues().size()\<close> second.
\<close>

function scanModes :: "real list \<Rightarrow> real \<Rightarrow> real \<Rightarrow> nat \<Rightarrow> double list \<Rightarrow> error + nat \<times> double list" where
  "scanModes evs k2max c idx freqs =
     (if idx < length evs
      then (if evs ! idx < k2max \<and> idx < length evs
            then scanModes evs k2max c (idx + 1) (freqs @ [eigenFreq c (evs ! idx)])
            else Inr (idx, freqs))
      else Inl OutOfRange)"
  by pat_completeness auto
termination
  by (relation "measure (\<lambda>(evs, k2max, c, idx, freqs). length evs - idx)") auto

declare scanModes.simps [simp del]

text \<open>The \<^verbatim>\<open>for\<close> loop of the other branch, over the indices \<open>0 .. m_modesNumber - 1\<close>.\<close>

fun pushFreqs :: "real list \<Rightarrow> real \<Rightarrow> nat list \<Rightarrow> double list \<Rightarrow> error + double list" where
  "pushFreqs evs c [] freqs = Inr freqs"
| "pushFreqs evs c (i # is) freqs =
     (case readAt evs i of
        Inl e \<Rightarrow> Inl e
      | Inr ev \<Rightarrow> pushFreqs evs c is (freqs @ [eigenFreq c ev]))"

text \<open>
  \<^verbatim>\<open>eigenvectors().block(0, 0, numVert, m_modesNumber)\<close>, every column multiplied by the
  sign of the first mode.
\<close>

definition extractModes :: "real list list \<Rightarrow> nat \<Rightarrow> error + real list list" where
  "extractModes evecs n =
     (case readAt evecs 0 of
        Inl e \<Rightarrow> Inl e
      | Inr col0 \<Rightarrow>
          (case readAt col0 0 of
             Inl e \<Rightarrow> Inl e
           | Inr v \<Rightarrow>
               (let signFirstMode = (if 0 < v then 1 else - 1)
                in if n \<le> length evecs
                   then Inr (map (map (\<lambda>x. x * signFirstMode)) (take n evecs))
                   else Inl OutOfRange)))"

definition computeModes ::
  "real list \<Rightarrow> real list list \<Rightarrow> int \<Rightarrow> simulationParameters \<Rightarrow> error + modes" where
  "computeModes evs evecs modesNumber p =
     (case (if modesNumber = 0
            then scanModes evs (maxWaveNumber p) (sndSpeed p) 0 []
            else if modesNumber < 0 then Inl LengthError
            else (case pushFreqs evs (sndSpeed p) [0 ..< nat modesNumber] [] of
                    Inl e \<Rightarrow> Inl e
                  | Inr freqs \<Rightarrow> Inr (nat modesNumber, freqs))) of
        Inl e \<Rightarrow> Inl e
      | Inr (n, freqs) \<Rightarrow>
          (if freqs = [] then Inl OutOfRange
           else (case extractModes evecs n of
                   Inl e \<Rightarrow> Inl e
                 | Inr ms \<Rightarrow>
                     Inr \<lparr> m_modesNumber = n,
                           m_eigenFreqs = freqs[0 := Dbl 0],
                           m_modes = ms \<rparr>)))"

text \<open>
  Parameters used in the examples: sound speed 35000 cm/s, modes kept up to 20000 Hz,
  air density 0.00114 g per cubic cm.
\<close>

definition airParams :: simulationParameters where
  "airParams = \<lparr> maxCutOnFreq = 20000, sndSpeed = 35000, volumicMass = 114 / 100000,
                  thermalBndSpecAdm = 0, propMethod = MAGNUS, junctionLosses = False \<rparr>"

text \<open>The eigenvectors of a three-vertex mesh, one column per mode.\<close>

definition threeModes :: "real list list" where
  "threeModes = [[1, 1, 1], [1, 0, - 1], [1, - 2, 1]]"

section \<open>Cross-sections and their matrices\<close>

text \<open>
  The matrices of the simulator are Eigen matrices. The junction formulas are written
  over any matrix type \<open>'m\<close> with the operations of the record \<open>linalg\<close>; \<open>minverse\<close>
  stands for \<^verbatim>\<open>inverse()\<close> and \<^verbatim>\<open>fullPivLu().inverse()\<close>, \<open>mscale\<close> for the product with a
  scalar, \<open>mdivs\<close> for the division by a scalar, \<open>mempty\<close> for \<^verbatim>\<open>Eigen::MatrixXcd()\<close>.
\<close>

record 'm linalg =
  mmul :: "'m \<Rightarrow> 'm \<Rightarrow> 'm"
  madd :: "'m \<Rightarrow> 'm \<Rightarrow> 'm"
  msub :: "'m \<Rightarrow> 'm \<Rightarrow> 'm"
  mscale :: "complex \<Rightarrow> 'm \<Rightarrow> 'm"
  mdivs :: "'m \<Rightarrow> complex \<Rightarrow> 'm"
  mtranspose :: "'m \<Rightarrow> 'm"
  minverse :: "'m \<Rightarrow> 'm"
  midentity :: "nat \<Rightarrow> 'm"
  mzero :: "nat \<Rightarrow> nat \<Rightarrow> 'm"
  mempty :: "'m"

text \<open>
  \<open>FEM\<close> is \<^verbatim>\<open>CrossSection2dFEM\<close>, \<open>RADIATION\<close> is \<^verbatim>\<open>CrossSection2dRadiation\<close>. The fields
  are the members the junction step reads.
\<close>

datatype sectionKind = FEM | RADIATION

record 'm crossSection =
  kind :: sectionKind
  area :: real
  scalingFactors :: "real \<times> real"
  numberOfModes :: nat
  getMatrixF :: "'m list"
  m_impedance :: "'m list"
  m_admittance :: "'m list"
  m_acPressure :: "'m list"
  m_axialVelocity :: "'m list"
  Zdir :: int
  Ydir :: int
  Pdir :: int
  Qdir :: int

text \<open>\<^verbatim>\<open>scaleIn()\<close> and \<^verbatim>\<open>scaleOut()\<close> are virtual: a radiation section answers 1.\<close>

definition scaleIn :: "('m, 'x) crossSection_scheme \<Rightarrow> real" where
  "scaleIn s = (case kind s of FEM \<Rightarrow> fst (scalingFactors s) | RADIATION \<Rightarrow> 1)"

definition scaleOut :: "('m, 'x) crossSection_scheme \<Rightarrow> real" where
  "scaleOut s = (case kind s of FEM \<Rightarrow> snd (scalingFactors s) | RADIATION \<Rightarrow> 1)"

definition bindE :: "error + 'a \<Rightarrow> ('a \<Rightarrow> error + 'b) \<Rightarrow> error + 'b" where
  "bindE m f = (case m of Inl e \<Rightarrow> Inl e | Inr x \<Rightarrow> f x)"

definition backE :: "'a list \<Rightarrow> error + 'a" where
  "backE xs = (if xs = [] then Inl OutOfRange else Inr (last xs))"

definition readAtI :: "'a list \<Rightarrow> int \<Rightarrow> error + 'a" where
  "readAtI xs i = (if 0 \<le> i \<and> i < int (length xs) then Inr (xs ! nat i) else Inl OutOfRange)"

definition Zin :: "('m, 'x) crossSection_scheme \<Rightarrow> error + 'm" where
  "Zin s = (if Zdir s = 1 then readAt (m_impedance s) 0 else backE (m_impedance s))"

definition Zout :: "('m, 'x) crossSection_scheme \<Rightarrow> error + 'm" where
  "Zout s = (if Zdir s = 1 then backE (m_impedance s) else readAt (m_impedance s) 0)"

definition Yin :: "('m, 'x) crossSection_scheme \<Rightarrow> error + 'm" where
  "Yin s = (if Ydir s = 1 then readAt (m_admittance s) 0 else backE (m_admittance s))"

definition Yout :: "('m, 'x) crossSection_scheme \<Rightarrow> error + 'm" where
  "Yout s = (if Ydir s = 1 then backE (m_admittance s) else readAt (m_admittance s) 0)"

definition Qin :: "('m, 'x) crossSection_scheme \<Rightarrow> error + 'm" where
  "Qin s = (if Qdir s = 1 then readAt (m_axialVelocity s) 0 else backE (m_axialVelocity s))"

definition Pin :: "('m, 'x) crossSection_scheme \<Rightarrow> error + 'm" where
  "Pin s = (if Pdir s = 1 then readAt (m_acPressure s) 0 else backE (m_acPressure s))"

definition Pout :: "'m linalg \<Rightarrow> ('m, 'x) crossSection_scheme \<Rightarrow> error + 'm" where
  "Pout la s =
     (if m_acPressure s = [] then Inr (mempty la)
      else if Pdir s = 1 then backE (m_acPressure s)
      else readAt (m_acPressure s) 0)"

definition Qout :: "'m linalg \<Rightarrow> ('m, 'x) crossSection_scheme \<Rightarrow> error + 'm" where
  "Qout la s =
     (if m_axialVelocity s = []
      then bindE (Yout s) (\<lambda>y. bindE (Pout la s) (\<lambda>p. Inr (mmul la y p)))
      else if Qdir s = 1 then backE (m_axialVelocity s)
      else readAt (m_axialVelocity s) 0)"

text \<open>
  \<^verbatim>\<open>1i * 2. * M_PI * freq * thermalBndSpecAdm / sndSpeed\<close>, where \<^verbatim>\<open>thermalBndSpecAdm\<close> is a
  \<^verbatim>\<open>complex<double>\<close>.
\<close>

definition wallInterfaceAdmit :: "simulationParameters \<Rightarrow> real \<Rightarrow> complex" where
  "wallInterfaceAdmit p freq =
     \<i> * 2 * of_real pi * of_real freq * thermalBndSpecAdm p / of_real (sndSpeed p)"

section \<open>The junction step of \<open>Acoustic3dSimulation::propagateImpedAdmit\<close>\<close>

text \<open>
  One pass of the loop over sections, from the extraction of the scattering matrix to the
  end of the \<^verbatim>\<open>switch\<close> on the propagation method: section \<open>i\<close> is entered from section
  \<open>prevSec = i - direction\<close>, and \<open>prevImped\<close> and \<open>prevAdmit\<close> are computed for it. The
  propagation inside the section (\<^verbatim>\<open>propagateMagnus\<close>, \<^verbatim>\<open>propagateImpedAdmitStraight\<close>)
  that follows is not part of the step. The four blocks of the \<open>MAGNUS\<close> case come first,
  each returning \<open>(prevImped, prevAdmit)\<close>.
\<close>

definition admitContractionBack ::
  "'m linalg \<Rightarrow> simulationParameters \<Rightarrow> complex \<Rightarrow> 'm crossSection \<Rightarrow> 'm crossSection \<Rightarrow>
   'm \<Rightarrow> 'm \<Rightarrow> error + 'm \<times> 'm" where
  "admitContractionBack la p w si sp F G =
     bindE (Yin sp) (\<lambda>Y.
       let nI = numberOfModes si;
           core = mmul la (mmul la (mscale la (of_real ((scaleOut si)\<^sup>2 / (scaleIn sp)\<^sup>2)) F) Y)
                    (mtranspose la F);
           upd = (if junctionLosses p then msub la core (mscale la w G) else core)
       in Inr (mzero la nI nI, madd la (mzero la nI nI) upd))"

definition impedExpansionBack ::
  "'m linalg \<Rightarrow> simulationParameters \<Rightarrow> complex \<Rightarrow> 'm crossSection \<Rightarrow> 'm crossSection \<Rightarrow>
   'm \<Rightarrow> 'm \<Rightarrow> error + 'm \<times> 'm" where
  "impedExpansionBack la p w si sp F G =
     bindE (Zin sp) (\<lambda>Z.
       let nI = numberOfModes si; nPs = numberOfModes sp;
           fz = mmul la (mscale la (of_real ((scaleIn sp)\<^sup>2 / (scaleOut si)\<^sup>2)) F) Z;
           upd = (if junctionLosses p
                  then mmul la
                         (mmul la fz
                            (minverse la (msub la (midentity la nPs) (mmul la (mscale la w G) Z))))
                         (mtranspose la F)
                  else mmul la fz (mtranspose la F));
           prevImped = madd la (mzero la nI nI) upd
       in Inr (prevImped, madd la (mzero la nI nI) (minverse la prevImped)))"

definition admitContractionFwd ::
  "'m linalg \<Rightarrow> simulationParameters \<Rightarrow> complex \<Rightarrow> 'm crossSection \<Rightarrow> 'm crossSection \<Rightarrow>
   'm \<Rightarrow> 'm \<Rightarrow> error + 'm \<times> 'm" where
  "admitContractionFwd la p w si sp F G =
     bindE (Yout sp) (\<lambda>Y.
       let nI = numberOfModes si;
           core = mmul la
                    (mmul la (mscale la (of_real ((scaleIn si)\<^sup>2 / (scaleOut sp)\<^sup>2)) (mtranspose la F)) Y)
                    F;
           upd = (if junctionLosses p then madd la core (mscale la w G) else core)
       in Inr (mzero la nI nI, madd la (mzero la nI nI) upd))"

definition impedExpansionFwd ::
  "'m linalg \<Rightarrow> simulationParameters \<Rightarrow> complex \<Rightarrow> 'm crossSection \<Rightarrow> 'm crossSection \<Rightarrow>
   'm \<Rightarrow> 'm \<Rightarrow> error + 'm \<times> 'm" where
  "impedExpansionFwd la p w si sp F G =
     bindE (Zout sp) (\<lambda>Z.
       let nI = numberOfModes si; nPs = numberOfModes sp;
           fz = mmul la (mscale la (of_real ((scaleOut sp)\<^sup>2 / (scaleIn si)\<^sup>2)) (mtranspose la F)) Z;
           upd = (if junctionLosses p
                  then mmul la
                         (mmul la fz
                            (minverse la (madd la (midentity la nPs) (mmul la (mscale la w G) Z))))
                         F
                  else mmul la fz F);
           prevImped = madd la (mzero la nI nI) upd
       in Inr (prevImped, madd la (mzero la nI nI) (minverse la prevImped)))"

text \<open>The blocks of the \<open>STRAIGHT_TUBES\<close> case; \<open>z\<close> selects \<open>Yin\<close>/\<open>Zin\<close> or \<open>Yout\<close>/\<open>Zout\<close>.\<close>

definition areaRatio :: "'m crossSection \<Rightarrow> 'm crossSection \<Rightarrow> real" where
  "areaRatio sp si = max (area sp) (area si) / min (area sp) (area si)"

definition straightContraction ::
  "'m linalg \<Rightarrow> 'm crossSection \<Rightarrow> 'm crossSection \<Rightarrow> error + 'm \<Rightarrow> 'm \<Rightarrow> error + 'm \<times> 'm" where
  "straightContraction la si sp y F =
     bindE y (\<lambda>Y.
       let nI = numberOfModes si;
           prevAdmit = madd la (mzero la nI nI)
             (mmul la (mmul la (mscale la (of_real (areaRatio sp si)) F) Y) (mtranspose la F))
       in Inr (madd la (mzero la nI nI) (minverse la prevAdmit), prevAdmit))"

definition straightExpansion ::
  "'m linalg \<Rightarrow> 'm crossSection \<Rightarrow> 'm crossSection \<Rightarrow> error + 'm \<Rightarrow> 'm \<Rightarrow> error + 'm \<times> 'm" where
  "straightExpansion la si sp z F =
     bindE z (\<lambda>Z.
       let nI = numberOfModes si;
           prevImped = madd la (mzero la nI nI)
             (mmul la (mmul la (mscale la (of_real (areaRatio sp si)) F) Z) (mtranspose la F))
       in Inr (prevImped, madd la (mzero la nI nI) (minverse la prevImped)))"

text \<open>The scattering matrix \<open>F[0]\<close> and its complementary \<open>G\<close>.\<close>

definition scatteringImpedAdmit ::
  "'m linalg \<Rightarrow> int \<Rightarrow> 'm crossSection \<Rightarrow> 'm crossSection \<Rightarrow> error + 'm \<times> 'm" where
  "scatteringImpedAdmit la direction si sp =
     (let nI = numberOfModes si; nPs = numberOfModes sp
      in if direction = - 1
         then bindE (readAt (getMatrixF si) 0) (\<lambda>F.
                Inr (F, if area si > area sp
                        then msub la (midentity la nI) (mmul la F (mtranspose la F))
                        else msub la (midentity la nPs) (mmul la (mtranspose la F) F)))
         else bindE (readAt (getMatrixF sp) 0) (\<lambda>F.
                Inr (F, if area si > area sp
                        then msub la (midentity la nI) (mmul la (mtranspose la F) F)
                        else msub la (midentity la nPs) (mmul la F (mtranspose la F)))))"

definition junctionImpedAdmit ::
  "'m linalg \<Rightarrow> simulationParameters \<Rightarrow> real \<Rightarrow> 'm crossSection list \<Rightarrow> int \<Rightarrow> int \<Rightarrow>
   error + 'm \<times> 'm" where
  "junctionImpedAdmit la p freq secs i direction =
     bindE (readAtI secs i) (\<lambda>si.
     bindE (readAtI secs (i - direction)) (\<lambda>sp.
     bindE (scatteringImpedAdmit la direction si sp) (\<lambda>(F, G).
       let w = wallInterfaceAdmit p freq
       in case propMethod p of
            MAGNUS \<Rightarrow>
              (if direction = - 1
               then (if area si * (scaleOut si)\<^sup>2 > area sp * (scaleIn sp)\<^sup>2
                     then admitContractionBack la p w si sp F G
                     else impedExpansionBack la p w si sp F G)
               else (if area si * (scaleIn si)\<^sup>2 > area sp * (scaleOut sp)\<^sup>2
                     then admitContractionFwd la p w si sp F G
                     else impedExpansionFwd la p w si sp F G))
          | STRAIGHT_TUBES \<Rightarrow>
              (if direction = - 1
               then (if area si > area sp
                     then straightContraction la si sp (Yin sp) F
                     else straightExpansion la si sp (Zin sp) F)
               else (if area si > area sp
                     then straightContraction la si sp (Yout sp) F
                     else straightExpansion la si sp (Zout sp) F)))))"

section \<open>The junction step of \<open>Acoustic3dSimulation::propagateVelocityPress\<close>\<close>

text \<open>
  One pass of the loop over sections, after the propagation inside section \<open>i\<close>: the
  scattering matrix is extracted and \<open>prevVelo\<close> and \<open>prevPress\<close> are computed for
  \<open>nextSec = i + direction\<close>. Each block returns \<open>(prevVelo, prevPress)\<close>.
\<close>

definition pressContractionBack ::
  "'m linalg \<Rightarrow> 'm crossSection \<Rightarrow> 'm crossSection \<Rightarrow> 'm \<Rightarrow> error + 'm \<times> 'm" where
  "pressContractionBack la si sn F =
     bindE (Pin si) (\<lambda>P.
     bindE (Yout sn) (\<lambda>Y.
       let nNs = numberOfModes sn;
           prevPress = madd la (mzero la nNs 1)
             (mdivs la (mscale la (of_real (scaleIn si)) (mmul la F P)) (of_real (scaleOut sn)))
       in Inr (madd la (mzero la nNs 1) (mmul la Y prevPress), prevPress)))"

definition veloExpansionBack ::
  "'m linalg \<Rightarrow> simulationParameters \<Rightarrow> complex \<Rightarrow> 'm crossSection \<Rightarrow> 'm crossSection \<Rightarrow>
   'm \<Rightarrow> 'm \<Rightarrow> error + 'm \<times> 'm" where
  "veloExpansionBack la p w si sn F G =
     bindE (if junctionLosses p
            then bindE (Zin sn) (\<lambda>Z. bindE (Qin si) (\<lambda>Q.
                   Inr (mmul la
                          (mmul la
                             (minverse la (madd la (midentity la (numberOfModes sn))
                                (mmul la (mscale la w G) Z)))
                             F)
                          Q)))
            else bindE (Qin si) (\<lambda>Q. Inr (mmul la F Q))) (\<lambda>fq.
     bindE (Zout sn) (\<lambda>Zo.
       let nNs = numberOfModes sn;
           prevVelo = madd la (mzero la nNs 1)
             (mdivs la (mscale la (of_real (scaleOut sn)) fq) (of_real (scaleIn si)))
       in Inr (prevVelo, madd la (mzero la nNs 1) (mmul la Zo prevVelo))))"

definition pressContractionFwd ::
  "'m linalg \<Rightarrow> 'm crossSection \<Rightarrow> 'm crossSection \<Rightarrow> 'm \<Rightarrow> error + 'm \<times> 'm" where
  "pressContractionFwd la si sn F =
     bindE (Pout la si) (\<lambda>P.
     bindE (Yin sn) (\<lambda>Y.
       let nNs = numberOfModes sn;
           prevPress = madd la (mzero la nNs 1)
             (mdivs la (mscale la (of_real (scaleOut si)) (mmul la (mtranspose la F) P))
                (of_real (scaleIn sn)))
       in Inr (madd la (mzero la nNs 1) (mmul la Y prevPress), prevPress)))"

definition veloExpansionFwd ::
  "'m linalg \<Rightarrow> simulationParameters \<Rightarrow> complex \<Rightarrow> 'm crossSection \<Rightarrow> 'm crossSection \<Rightarrow>
   'm \<Rightarrow> 'm \<Rightarrow> error + 'm \<times> 'm" where
  "veloExpansionFwd la p w si sn F G =
     bindE (if junctionLosses p
            then bindE (Zin sn) (\<lambda>Z. bindE (Qout la si) (\<lambda>Q.
                   Inr (mmul la
                          (mmul la
                             (minverse la (msub la (midentity la (numberOfModes sn))
                                (mmul la (mscale la w G) Z)))
                             (mtranspose la F))
                          Q)))
            else bindE (Qout la si) (\<lambda>Q. Inr (mmul la (mtranspose la F) Q))) (\<lambda>fq.
     bindE (Zin sn) (\<lambda>Zi.
       let nNs = numberOfModes sn;
           prevVelo = madd la (mzero la nNs 1)
             (mdivs la (mscale la (of_real (scaleIn sn)) fq) (of_real (scaleOut si)))
       in Inr (prevVelo, madd la (mzero la nNs 1) (mmul la Zi prevVelo))))"

text \<open>The blocks of the \<open>STRAIGHT_TUBES\<close> case.\<close>

definition sqrtAreaRatio :: "'m crossSection \<Rightarrow> 'm crossSection \<Rightarrow> real" where
  "sqrtAreaRatio sn si = sqrt (max (area sn) (area si) / min (area sn) (area si))"

definition straightVelo ::
  "'m linalg \<Rightarrow> 'm crossSection \<Rightarrow> 'm crossSection \<Rightarrow> error + 'm \<Rightarrow> error + 'm \<Rightarrow> 'm \<Rightarrow>
   error + 'm \<times> 'm" where
  "straightVelo la si sn q z F =
     bindE q (\<lambda>Q.
     bindE z (\<lambda>Z.
       let nNs = numberOfModes sn;
           prevVelo = madd la (mzero la nNs 1)
             (mmul la (mscale la (of_real (sqrtAreaRatio sn si)) (mtranspose la F)) Q)
       in Inr (prevVelo, madd la (mzero la nNs 1) (mmul la Z prevVelo))))"

definition straightPress ::
  "'m linalg \<Rightarrow> 'm crossSection \<Rightarrow> 'm crossSection \<Rightarrow> error + 'm \<Rightarrow> error + 'm \<Rightarrow> 'm \<Rightarrow>
   error + 'm \<times> 'm" where
  "straightPress la si sn pr y F =
     bindE pr (\<lambda>P.
     bindE y (\<lambda>Y.
       let nNs = numberOfModes sn;
           prevPress = madd la (mzero la nNs 1)
             (mmul la (mscale la (of_real (sqrtAreaRatio sn si)) (mtranspose la F)) P)
       in Inr (madd la (mzero la nNs 1) (mmul la Y prevPress), prevPress)))"

definition scatteringVelocityPress ::
  "'m linalg \<Rightarrow> int \<Rightarrow> 'm crossSection \<Rightarrow> 'm crossSection \<Rightarrow> error + 'm \<times> 'm" where
  "scatteringVelocityPress la direction si sn =
     (let nI = numberOfModes si; nNs = numberOfModes sn
      in if direction = 1
         then bindE (readAt (getMatrixF si) 0) (\<lambda>F.
                Inr (F, if area si > area sn
                        then msub la (midentity la nI) (mmul la F (mtranspose la F))
                        else msub la (midentity la nNs) (mmul la (mtranspose la F) F)))
         else bindE (readAt (getMatrixF sn) 0) (\<lambda>F.
                Inr (F, if area si > area sn
                        then msub la (midentity la nI) (mmul la (mtranspose la F) F)
                        else msub la (midentity la nNs) (mmul la F (mtranspose la F)))))"

definition junctionVelocityPress ::
  "'m linalg \<Rightarrow> simulationParameters \<Rightarrow> real \<Rightarrow> 'm crossSection list \<Rightarrow> int \<Rightarrow> int \<Rightarrow>
   error + 'm \<times> 'm" where
  "junctionVelocityPress la p freq secs i direction =
     bindE (readAtI secs i) (\<lambda>si.
     bindE (readAtI secs (i + direction)) (\<lambda>sn.
     bindE (scatteringVelocityPress la direction si sn) (\<lambda>(F, G).
       let w = wallInterfaceAdmit p freq
       in case propMethod p of
            MAGNUS \<Rightarrow>
              (if direction = - 1
               then (if area si * (scaleIn si)\<^sup>2 > area sn * (scaleOut sn)\<^sup>2
                     then pressContractionBack la si sn F
                     else veloExpansionBack la p w si sn F G)
               else (if area si * (scaleOut si)\<^sup>2 > area sn * (scaleIn sn)\<^sup>2
                     then pressContractionFwd la si sn F
                     else veloExpansionFwd la p w si sn F G))
          | STRAIGHT_TUBES \<Rightarrow>
              (if direction = - 1
               then (if area sn > area si
                     then straightVelo la si sn (Qin si) (Zout sn) F
                     else straightPress la si sn (Pin si) (Yout sn) F)
               else (if area sn > area si
                     then straightVelo la si sn (Qout la si) (Zin sn) F
                     else straightPress la si sn (Pout la si) (Yin sn) F)))))"

section \<open>The classifier of a junction, in the words of the specification\<close>

text \<open>
  The specification compares \<open>area * scale\<^sup>2\<close> across the junction. Of two adjacent
  sections the one with the smaller index is upstream (towards the glottis). The
  quantity of section \<open>k\<close> at its junction with section \<open>other\<close> takes the exit scale
  factor when \<open>k\<close> is the upstream side and the entry scale factor when it is the
  downstream side.
\<close>

definition sideQuantity :: "int \<Rightarrow> int \<Rightarrow> 'm crossSection \<Rightarrow> real" where
  "sideQuantity k other s = area s * (if k < other then scaleOut s else scaleIn s)\<^sup>2"

text \<open>One-mode sections: the \<open>1 \<times> 1\<close> matrices are the complex numbers.\<close>

definition scalarOps :: "complex linalg" where
  "scalarOps = \<lparr> mmul = (\<lambda>a b. a * b), madd = (\<lambda>a b. a + b), msub = (\<lambda>a b. a - b),
                 mscale = (\<lambda>c a. c * a), mdivs = (\<lambda>a c. a / c), mtranspose = (\<lambda>a. a),
                 minverse = (\<lambda>a. 1 / a), midentity = (\<lambda>n. 1), mzero = (\<lambda>r c. 0),
                 mempty = 0 \<rparr>"

definition oneModeSection :: "real \<Rightarrow> real \<Rightarrow> real \<Rightarrow> complex \<Rightarrow> complex crossSection" where
  "oneModeSection a sIn sOut y =
     \<lparr> kind = FEM, area = a, scalingFactors = (sIn, sOut), numberOfModes = 1,
       getMatrixF = [1], m_impedance = [1 / y], m_admittance = [y],
       m_acPressure = [1], m_axialVelocity = [y],
       Zdir = - 1, Ydir = - 1, Pdir = 1, Qdir = 1 \<rparr>"

text \<open>The same parameters with the propagation method \<open>STRAIGHT_TUBES\<close>.\<close>

definition straightParams :: simulationParameters where
  "straightParams = airParams \<lparr> propMethod := STRAIGHT_TUBES \<rparr>"

section \<open>The source of \<open>Acoustic3dSimulation::solveWaveProblem\<close>\<close>

text \<open>
  The statements between the two propagations: the input velocity of the first section
  and the input pressure. A column of mode amplitudes is a list, a matrix the list of
  its rows; \<open>matVec\<close> is the product \<^verbatim>\<open>Zin() * inputVelocity\<close> of an \<open>mn \<times> mn\<close> matrix
  and an \<open>mn \<times> 1\<close> column.
\<close>

type_synonym cmatrix = "complex list list"

definition matVec :: "cmatrix \<Rightarrow> complex list \<Rightarrow> complex list" where
  "matVec M v = map (\<lambda>row. sum_list (map2 (\<lambda>a b. a * b) row v)) M"

definition solveWaveProblem_source ::
  "simulationParameters \<Rightarrow> real \<Rightarrow> cmatrix crossSection \<Rightarrow> error + complex list \<times> complex list" where
  "solveWaveProblem_source p freq s0 =
     (let mn = numberOfModes s0;
          zero = replicate mn (0 :: complex)
      in if mn = 0 then Inl OutOfRange
         else
           (let inputVelocity = zero[0 :=
                  - \<i> * 2 * of_real pi * of_real freq * of_real (volumicMass p)
                    * of_real ((scaleIn s0) ^ 3) * of_real (area s0)]
            in bindE (Zin s0) (\<lambda>Z. Inr (inputVelocity, matVec Z inputVelocity))))"

text \<open>The input velocity in the words of the specification, with the square of the scale.\<close>

definition specInputVelocity ::
  "simulationParameters \<Rightarrow> real \<Rightarrow> cmatrix crossSection \<Rightarrow> complex list" where
  "specInputVelocity p freq s0 =
     (replicate (numberOfModes s0) 0)[0 :=
        - \<i> * 2 * of_real pi * of_real freq * of_real (volumicMass p)
          * of_real ((scaleIn s0)\<^sup>2) * of_real (area s0)]"

text \<open>A glottal section with one mode, area 1, entry scale 2 and input impedance 1.\<close>

definition glottisSection :: "cmatrix crossSection" where
  "glottisSection =
     \<lparr> kind = FEM, area = 1, scalingFactors = (2, 1), numberOfModes = 1,
       getMatrixF = [], m_impedance = [[[1]]], m_admittance = [[[1]]],
       m_acPressure = [], m_axialVelocity = [],
       Zdir = - 1, Ydir = - 1, Pdir = 1, Qdir = 1 \<rparr>"

section \<open>Radiation impedance: precomputation and spline interpolation\<close>

text \<open>
  \<^verbatim>\<open>m_radiationMatrixInterp[k][m][n]\<close> is the vector of the coefficients of kind \<open>k\<close> of
  the matrix entry \<open>(m, n)\<close>: kinds 0 to 3 are the sampled values \<open>a\<close> (real and imaginary
  part of the impedance, real and imaginary part of the admittance), kinds 4 to 7 the
  coefficients \<open>b\<close>, 8 to 11 the coefficients \<open>c\<close>, 12 to 15 the coefficients \<open>d\<close>. The table
  is a function of \<open>k\<close>, \<open>m\<close>, \<open>n\<close>; \<open>mn\<close>, the number of modes of the radiating section, bounds
  \<open>m\<close> and \<open>n\<close>.
\<close>

type_synonym interpTable = "nat \<Rightarrow> nat \<Rightarrow> nat \<Rightarrow> real list"

record radiationState =
  m_radiationFreqs :: "real list"
  m_radiationMatrixInterp :: interpTable

definition initCoefInterpRadiationMatrices :: radiationState where
  "initCoefInterpRadiationMatrices =
     \<lparr> m_radiationFreqs = [], m_radiationMatrixInterp = (\<lambda>k m n. []) \<rparr>"

text \<open>
  \<open>addRadMatToInterpolate\<close>. \<open>SR\<close> is the constant \<^verbatim>\<open>SAMPLING_RATE\<close>; \<open>radImped f\<close> is the
  matrix \<^verbatim>\<open>radiationImpedance\<close> computes at the frequency \<open>f\<close> and \<open>radAdmit f\<close> its inverse,
  both given by their entries. The two loops over \<open>m\<close> and \<open>n\<close> append one value to each
  of the four vectors of every entry.
\<close>

definition radiationFreq :: "real \<Rightarrow> nat \<Rightarrow> nat \<Rightarrow> real" where
  "radiationFreq SR nbRadFreqs idxRadFreq =
     max 500 (real idxRadFreq * (SR / 2 / (real_of_int (int nbRadFreqs - 1))))"

definition addRadMatToInterpolate ::
  "real \<Rightarrow> (real \<Rightarrow> nat \<Rightarrow> nat \<Rightarrow> complex) \<Rightarrow> (real \<Rightarrow> nat \<Rightarrow> nat \<Rightarrow> complex) \<Rightarrow>
   nat \<Rightarrow> nat \<Rightarrow> nat \<Rightarrow> radiationState \<Rightarrow> radiationState" where
  "addRadMatToInterpolate SR radImped radAdmit nbRadFreqs mn idxRadFreq st =
     (let freq = radiationFreq SR nbRadFreqs idxRadFreq;
          T = m_radiationMatrixInterp st
      in \<lparr> m_radiationFreqs = m_radiationFreqs st @ [freq],
           m_radiationMatrixInterp = (\<lambda>k m n.
             if m < mn \<and> n < mn
             then (if k = 0 then T k m n @ [Re (radImped freq m n)]
                   else if k = 1 then T k m n @ [Im (radImped freq m n)]
                   else if k = 2 then T k m n @ [Re (radAdmit freq m n)]
                   else if k = 3 then T k m n @ [Im (radAdmit freq m n)]
                   else T k m n)
             else T k m n) \<rparr>)"

text \<open>
  The spline of one matrix entry in \<open>computeInterpCoefRadMat\<close>: the tridiagonal system
  \<open>A c = R\<close>, solved by \<open>solve\<close> (\<^verbatim>\<open>householderQr().solve\<close>), then the coefficients \<open>b\<close> and
  \<open>d\<close>. The new values are appended to the vectors \<open>b\<close>, \<open>c\<close>, \<open>d\<close> of the entry.
\<close>

definition stepRadFreqs :: "real list \<Rightarrow> nat \<Rightarrow> real list" where
  "stepRadFreqs freqs nbRadFreqs = map (\<lambda>i. freqs ! (i + 1) - freqs ! i) [0 ..< nbRadFreqs - 1]"

definition splineA :: "real list \<Rightarrow> nat \<Rightarrow> real list list" where
  "splineA steps nbRadFreqs =
     map (\<lambda>r. map (\<lambda>c.
            if c = r then 2 * (steps ! r + steps ! (r + 1))
            else if c = r + 1 then steps ! (r + 1)
            else if c + 1 = r then steps ! r
            else 0) [0 ..< nbRadFreqs - 2]) [0 ..< nbRadFreqs - 2]"

definition splineR :: "real list \<Rightarrow> real list \<Rightarrow> nat \<Rightarrow> real list" where
  "splineR steps a nbRadFreqs =
     map (\<lambda>f. 3 * (a ! (f + 2) - a ! (f + 1)) / steps ! (f + 1)
              - 3 * (a ! (f + 1) - a ! f) / steps ! f) [0 ..< nbRadFreqs - 2]"

definition splineEntry ::
  "(real list list \<Rightarrow> real list \<Rightarrow> real list) \<Rightarrow> nat \<Rightarrow> real list \<Rightarrow>
   real list \<times> real list \<times> real list \<times> real list \<Rightarrow> error + real list \<times> real list \<times> real list" where
  "splineEntry solve nbRadFreqs freqs abcd =
     (case abcd of (a, b, c, d) \<Rightarrow>
        if nbRadFreqs < 4 \<or> length freqs < nbRadFreqs \<or> length a < nbRadFreqs
        then Inl OutOfRange
        else
          (let steps = stepRadFreqs freqs nbRadFreqs;
               B = solve (splineA steps nbRadFreqs) (splineR steps a nbRadFreqs);
               c' = c @ [0] @ B @ [0]
           in if length c' < nbRadFreqs then Inl OutOfRange
              else Inr
                (b @ map (\<lambda>f. (a ! (f + 1) - a ! f) / steps ! f
                               - steps ! f * (c' ! (f + 1) + 2 * c' ! f) / 3) [0 ..< nbRadFreqs - 1],
                 c',
                 d @ map (\<lambda>f. (c' ! (f + 1) - c' ! f) / 3 / steps ! f) [0 ..< nbRadFreqs - 1])))"

text \<open>
  \<open>computeInterpCoefRadMat\<close>: the three loops visit every cell \<open>(m, i, j)\<close> with \<open>m < 4\<close>
  and \<open>i, j < mn\<close> once; the cell reads the vectors of kinds \<open>m\<close>, \<open>m + 4\<close>, \<open>m + 8\<close>,
  \<open>m + 12\<close> of the entry \<open>(i, j)\<close> and writes the last three, so the cells do not depend on
  each other.
\<close>

definition cellOf :: "interpTable \<Rightarrow> nat \<Rightarrow> nat \<Rightarrow> nat \<Rightarrow> real list \<times> real list \<times> real list \<times> real list" where
  "cellOf T m i j = (T m i j, T (m + 4) i j, T (m + 8) i j, T (m + 12) i j)"

definition computeInterpCoefRadMat ::
  "(real list list \<Rightarrow> real list \<Rightarrow> real list) \<Rightarrow> nat \<Rightarrow> nat \<Rightarrow> radiationState \<Rightarrow>
   error + radiationState" where
  "computeInterpCoefRadMat solve nbRadFreqs mn st =
     (let T = m_radiationMatrixInterp st;
          freqs = m_radiationFreqs st;
          cell = (\<lambda>m i j. splineEntry solve nbRadFreqs freqs (cellOf T m i j))
      in if \<exists>m \<in> {0 ..< 4}. \<exists>i \<in> {0 ..< mn}. \<exists>j \<in> {0 ..< mn}. cell m i j = Inl OutOfRange
            \<or> nbRadFreqs < 2 \<or> length freqs < nbRadFreqs
         then Inl OutOfRange
         else Inr (st \<lparr> m_radiationMatrixInterp := (\<lambda>k i j.
                if i < mn \<and> j < mn \<and> 4 \<le> k \<and> k < 16
                then (case cell (k mod 4) i j of
                        Inr (b, c, d) \<Rightarrow> (if k < 8 then b else if k < 12 then c else d)
                      | Inl e \<Rightarrow> T k i j)
                else T k i j) \<rparr>))"

definition preComputeRadiationMatrices ::
  "(real list list \<Rightarrow> real list \<Rightarrow> real list) \<Rightarrow> real \<Rightarrow>
   (real \<Rightarrow> nat \<Rightarrow> nat \<Rightarrow> complex) \<Rightarrow> (real \<Rightarrow> nat \<Rightarrow> nat \<Rightarrow> complex) \<Rightarrow>
   nat \<Rightarrow> nat \<Rightarrow> error + radiationState" where
  "preComputeRadiationMatrices solve SR radImped radAdmit nbRadFreqs mn =
     computeInterpCoefRadMat solve nbRadFreqs mn
       (fold (addRadMatToInterpolate SR radImped radAdmit nbRadFreqs mn) [0 ..< nbRadFreqs]
          initCoefInterpRadiationMatrices)"

text \<open>
  \<open>interpolateRadiationImpedance\<close>. The \<^verbatim>\<open>while\<close> loop looks for the interval, from
  \<open>nbRadFreqs - 2\<close> downwards.
\<close>

fun findInterval :: "real list \<Rightarrow> real \<Rightarrow> nat \<Rightarrow> error + nat" where
  "findInterval freqs freq 0 =
     (case readAt freqs 0 of Inl e \<Rightarrow> Inl e | Inr f \<Rightarrow> Inr 0)"
| "findInterval freqs freq (Suc idx) =
     (case readAt freqs (Suc idx) of
        Inl e \<Rightarrow> Inl e
      | Inr f \<Rightarrow> if f > freq then findInterval freqs freq idx else Inr (Suc idx))"

definition cubicAt :: "interpTable \<Rightarrow> nat \<Rightarrow> nat \<Rightarrow> nat \<Rightarrow> nat \<Rightarrow> real \<Rightarrow> error + real" where
  "cubicAt T k m n idx x =
     bindE (readAt (T k m n) idx) (\<lambda>a.
     bindE (readAt (T (k + 4) m n) idx) (\<lambda>b.
     bindE (readAt (T (k + 8) m n) idx) (\<lambda>c.
     bindE (readAt (T (k + 12) m n) idx) (\<lambda>d.
       Inr (a + b * x + c * x ^ 2 + d * x ^ 3)))))"

fun collectE :: "(error + 'a) list \<Rightarrow> error + 'a list" where
  "collectE [] = Inr []"
| "collectE (x # xs) =
     (case x of
        Inl e \<Rightarrow> Inl e
      | Inr v \<Rightarrow> (case collectE xs of Inl e \<Rightarrow> Inl e | Inr vs \<Rightarrow> Inr (v # vs)))"

definition interpolateRadiationImpedance ::
  "nat \<Rightarrow> radiationState \<Rightarrow> real \<Rightarrow> error + cmatrix" where
  "interpolateRadiationImpedance mn st freq =
     (let T = m_radiationMatrixInterp st;
          freqs = m_radiationFreqs st
      in if mn = 0 then Inl OutOfRange
         else
           (let nbRadFreqs = length (T 0 0 0)
            in if nbRadFreqs < 2 then Inl OutOfRange
               else bindE (findInterval freqs freq (nbRadFreqs - 2)) (\<lambda>idx.
                      collectE (map (\<lambda>m.
                        collectE (map (\<lambda>n.
                          bindE (cubicAt T 0 m n idx (freq - freqs ! idx)) (\<lambda>re.
                          bindE (cubicAt T 1 m n idx (freq - freqs ! idx)) (\<lambda>im.
                            Inr (Complex re im)))) [0 ..< mn])) [0 ..< mn]))))"

text \<open>The value of kind \<open>k < 4\<close> sampled at the frequency \<open>f\<close> for the entry \<open>(m, n)\<close>.\<close>

definition sampleKind :: "(real \<Rightarrow> nat \<Rightarrow> nat \<Rightarrow> complex) \<Rightarrow> (real \<Rightarrow> nat \<Rightarrow> nat \<Rightarrow> complex) \<Rightarrow> nat \<Rightarrow> real \<Rightarrow> nat \<Rightarrow> nat \<Rightarrow> real" where
  "sampleKind radImped radAdmit k f m n =
     (if k = 0 then Re (radImped f m n) else if k = 1 then Im (radImped f m n)
      else if k = 2 then Re (radAdmit f m n) else Im (radAdmit f m n))"

text \<open>An impedance that grows with the frequency, for the examples.\<close>

definition rampImped :: "real \<Rightarrow> nat \<Rightarrow> nat \<Rightarrow> complex" where
  "rampImped f m n = Complex f 1"

definition unitAdmit :: "real \<Rightarrow> nat \<Rightarrow> nat \<Rightarrow> complex" where
  "unitAdmit f m n = 1"

section \<open>The profiles in \<open>Acoustic3dSimulation::createUniqueContour\<close>\<close>

text \<open>
  The first part of \<open>createUniqueContour\<close>, up to the loop that adds spacing: the upper
  and lower profiles are the two arrays of \<^verbatim>\<open>NUM_PROFILE_SAMPLES\<close> doubles, here two lists
  of equal length; \<open>invalidSample\<close> is the constant \<^verbatim>\<open>INVALID_PROFILE_SAMPLE\<close>. \<open>idxStart\<close>
  and \<open>idxStop\<close> are declared without a value: \<open>None\<close> until the first loop assigns them.
\<close>

record detection =
  idxStart :: "nat option"
  idxStop :: "nat option"
  firstSample :: bool

definition detectStep :: "double list \<Rightarrow> double list \<Rightarrow> nat \<Rightarrow> detection \<Rightarrow> detection" where
  "detectStep up lo i s =
     (let invalidPrevSample = deq (up ! (i - 1)) (lo ! (i - 1));
          invalidSample = deq (up ! i) (lo ! i);
          s1 = (if invalidPrevSample \<and> \<not> invalidSample \<and> firstSample s
                then s \<lparr> idxStart := Some (i - 1), firstSample := False \<rparr>
                else s)
      in if \<not> invalidPrevSample \<and> invalidSample
         then s1 \<lparr> idxStop := Some i \<rparr>
         else s1)"

definition detectContour :: "double list \<Rightarrow> double list \<Rightarrow> detection" where
  "detectContour up lo =
     fold (detectStep up lo) [1 ..< length up - 1]
       \<lparr> idxStart = None, idxStop = None, firstSample = True \<rparr>"

definition markInvalid ::
  "double \<Rightarrow> nat \<Rightarrow> double list \<times> double list \<Rightarrow> double list \<times> double list" where
  "markInvalid invalidSample i ul =
     (case ul of (up, lo) \<Rightarrow> (up[i := invalidSample], lo[i := invalidSample]))"

text \<open>The two constants are the doubles nearest to the decimal literals 0.05 and 0.025.\<close>

definition MINIMAL_DISTANCE :: double where
  "MINIMAL_DISTANCE = round64 (5 / 100)"

definition HALF_MINIMAL_DISTANCE :: double where
  "HALF_MINIMAL_DISTANCE = round64 (25 / 1000)"

text \<open>
  The body of the last loop: the difference, the sum \<^verbatim>\<open>+=\<close> and the difference \<^verbatim>\<open>-=\<close> are
  rounded operations.
\<close>

definition addSpacing :: "nat \<Rightarrow> double list \<times> double list \<Rightarrow> double list \<times> double list" where
  "addSpacing i ul =
     (case ul of (up, lo) \<Rightarrow>
        if dless (dabs (sub64 (up ! i) (lo ! i))) MINIMAL_DISTANCE
        then (up[i := add64 (up ! i) HALF_MINIMAL_DISTANCE],
              lo[i := sub64 (lo ! i) HALF_MINIMAL_DISTANCE])
        else (up, lo))"

definition createUniqueContour_profiles ::
  "double \<Rightarrow> double list \<Rightarrow> double list \<Rightarrow> error + double list \<times> double list" where
  "createUniqueContour_profiles invalidSample inputUpProf inputLoProf =
     (let s = detectContour inputUpProf inputLoProf
      in case idxStart s of
           None \<Rightarrow> Inl Uninitialised
         | Some start \<Rightarrow>
             (case idxStop s of
                None \<Rightarrow> Inl Uninitialised
              | Some stop \<Rightarrow>
                  Inr (fold addSpacing [start + 1 ..< stop]
                        (fold (markInvalid invalidSample) [stop + 1 ..< length inputUpProf - 1]
                          (fold (markInvalid invalidSample) [0 ..< start]
                            (inputUpProf, inputLoProf))))))"

text \<open>
  Two profiles of eight samples, closed at both ends. At sample 3 the two profiles are
  identical, at sample 4 the upper profile is below the lower one.
\<close>

definition upperExample :: "double list" where
  "upperExample = [Dbl 0, Dbl 0, Dbl 1, Dbl 1, Dbl 0, Dbl 0, Dbl 0, Dbl 0]"

definition lowerExample :: "double list" where
  "lowerExample = [Dbl 0, Dbl 0, Dbl 0, Dbl 1, Dbl 1, Dbl 0, Dbl 0, Dbl 0]"

section \<open>The last sections of \<open>Acoustic3dSimulation::createCrossSections\<close>\<close>

text \<open>
  The end of \<open>createCrossSections\<close>: one FEM section for each contour of the last slice,
  then the radiation section when \<open>createRadSection\<close> is set. A contour is the list of its
  vertices; \<open>bbox\<close> is the bounding box CGAL returns for it, the extreme coordinates of
  the vertices (a contour that reaches this point has at least three of them). The
  sections created are recorded with the data this part of the function decides; \<open>r\<close>
  is the variable \<^verbatim>\<open>radius\<close>.
\<close>

type_synonym polygon = "(real \<times> real) list"

record bbox =
  xmin :: real
  ymin :: real
  xmax :: real
  ymax :: real

definition polygonBbox :: "polygon \<Rightarrow> bbox" where
  "polygonBbox ps =
     \<lparr> xmin = Min (set (map fst ps)), ymin = Min (set (map snd ps)),
       xmax = Max (set (map fst ps)), ymax = Max (set (map snd ps)) \<rparr>"

datatype builtSection = BuiltFEM polygon | BuiltRadiation real real

definition radiusStep :: "polygon \<Rightarrow> real \<Rightarrow> real" where
  "radiusStep c r =
     max r
       (max (xmax (polygonBbox c))
          (max (ymax (polygonBbox c))
             (max \<bar>xmin (polygonBbox c)\<bar> \<bar>ymin (polygonBbox c)\<bar>)))"

definition createLastSections :: "polygon list \<Rightarrow> bool \<Rightarrow> builtSection list" where
  "createLastSections lastContours createRadSection =
     (let r = fold radiusStep lastContours 0;
          fem = map BuiltFEM lastContours
      in if createRadSection
         then (let PMLThickness = r
               in fem @ [BuiltRadiation (r * (21 / 10)) PMLThickness])
         else fem)"

text \<open>
  The largest absolute bounding-box coordinate of a contour, and its maximum over the
  contours of a slice, in the words of the specification.
\<close>

definition maxAbsCoordinate :: "polygon \<Rightarrow> real" where
  "maxAbsCoordinate c =
     Max {\<bar>xmin (polygonBbox c)\<bar>, \<bar>xmax (polygonBbox c)\<bar>,
          \<bar>ymin (polygonBbox c)\<bar>, \<bar>ymax (polygonBbox c)\<bar>}"

definition rMax :: "polygon list \<Rightarrow> real" where
  "rMax cs = Max (maxAbsCoordinate ` set cs)"

text \<open>A last slice with two contours, a triangle and a square left of the origin.\<close>

definition lastSlice :: "polygon list" where
  "lastSlice = [[(0, 0), (1, 0), (0, 1 / 2)], [(- 3, - 1), (- 2, - 1), (- 2, 1), (- 3, 1)]]"

section \<open>Interpolation of a transfer function: \<open>Acoustic3dSimulation::interpolateTransferFunction\<close>\<close>

text \<open>
  The functions of the C library on the special values: \<^verbatim>\<open>log10\<close>, \<^verbatim>\<open>pow(10., y)\<close> and the
  modulus \<^verbatim>\<open>abs\<close> of a \<^verbatim>\<open>complex<double>\<close>, which is a pair of doubles.
\<close>

fun dlog10 :: "double \<Rightarrow> double" where
  "dlog10 (Dbl x) = (if 0 < x then Dbl (log 10 x) else if x = 0 then NegInf else NaN)"
| "dlog10 PosInf = PosInf"
| "dlog10 NegInf = NaN"
| "dlog10 NaN = NaN"

fun dpow10 :: "double \<Rightarrow> double" where
  "dpow10 (Dbl y) = Dbl (10 powr y)"
| "dpow10 PosInf = PosInf"
| "dpow10 NegInf = Dbl 0"
| "dpow10 NaN = NaN"

type_synonym cdouble = "double \<times> double"

fun cabs :: "cdouble \<Rightarrow> double" where
  "cabs (Dbl x, Dbl y) = Dbl (sqrt (x\<^sup>2 + y\<^sup>2))"
| "cabs (PosInf, y) = PosInf"
| "cabs (NegInf, y) = PosInf"
| "cabs (x, PosInf) = PosInf"
| "cabs (x, NegInf) = PosInf"
| "cabs (x, y) = NaN"

text \<open>
  The conversion \<^verbatim>\<open>(int)x\<close> truncates; it is undefined for NaN, for the infinities and
  outside the range of a 32-bit \<^verbatim>\<open>int\<close>.
\<close>

definition toInt :: "double \<Rightarrow> error + int" where
  "toInt d =
     (case d of
        Dbl x \<Rightarrow>
          (let t = (if 0 \<le> x then \<lfloor>x\<rfloor> else \<lceil>x\<rceil>)
           in if - 2147483648 \<le> t \<and> t \<le> 2147483647 then Inr t else Inl OutOfRange)
      | _ \<Rightarrow> Inl OutOfRange)"

text \<open>
  A stored transfer function is an Eigen matrix of \<open>rows\<close> frequencies by \<open>cols\<close> points;
  \<open>coeffAt\<close> is \<^verbatim>\<open>operator()(row, col)\<close>.
\<close>

record tfMatrix =
  rows :: nat
  cols :: nat
  coeff :: "nat \<Rightarrow> nat \<Rightarrow> cdouble"

definition coeffAt :: "tfMatrix \<Rightarrow> int \<Rightarrow> int \<Rightarrow> error + cdouble" where
  "coeffAt M r c =
     (if 0 \<le> r \<and> r < int (rows M) \<and> 0 \<le> c \<and> c < int (cols M)
      then Inr (coeff M (nat r) (nat c))
      else Inl OutOfRange)"

datatype tfType = GLOTTAL | NOISE | INPUT_IMPED

record tfState =
  m_numFreqPicture :: int
  m_tfFreqs :: "double list"
  m_glottalSourceTF :: tfMatrix
  m_noiseSourceTF :: tfMatrix
  m_planeModeInputImpedance :: tfMatrix

text \<open>\<open>SR\<close> is the constant \<^verbatim>\<open>SAMPLING_RATE\<close>. The result is the pair (real part, imaginary part).\<close>

definition interpolateTransferFunction ::
  "real \<Rightarrow> tfState \<Rightarrow> double \<Rightarrow> int \<Rightarrow> tfType \<Rightarrow> error + cdouble" where
  "interpolateTransferFunction SR st freq idxPt0 type =
     (let freqSteps = ddiv (ddiv (Dbl SR) (Dbl 2)) (Dbl (of_int (m_numFreqPicture st)));
          maxIdxFreq = int (length (m_tfFreqs st)) - 1;
          inputTf = (case type of
                       GLOTTAL \<Rightarrow> m_glottalSourceTF st
                     | NOISE \<Rightarrow> m_noiseSourceTF st
                     | INPUT_IMPED \<Rightarrow> m_planeModeInputImpedance st);
          idxPt1 = (case type of INPUT_IMPED \<Rightarrow> 0 | _ \<Rightarrow> idxPt0)
      in if 0 < rows inputTf \<and> 0 < length (m_tfFreqs st)
         then
           (let idxPt = min (int (cols inputTf)) idxPt1
            in if dle (hd (m_tfFreqs st)) freq \<and> dle freq (last (m_tfFreqs st))
               then
                 bindE (toInt (ddiv freq freqSteps)) (\<lambda>idxFreqs0.
                 if idxFreqs0 = 2147483647 then Inl OutOfRange
                 else
                   (let idxFreqs1 = min maxIdxFreq (idxFreqs0 + 1)
                    in bindE (coeffAt inputTf idxFreqs0 idxPt) (\<lambda>z0.
                       bindE (coeffAt inputTf idxFreqs1 idxPt) (\<lambda>z1.
                         let tf0 = dlog10 (cabs z0);
                             tf1 = dlog10 (cabs z1)
                         in Inr (dpow10 (dadd tf0
                                   (ddiv (dmul (dsub tf1 tf0)
                                            (dsub freq (dmul (Dbl (of_int idxFreqs0)) freqSteps)))
                                      freqSteps)),
                                 Dbl 0)))))
               else Inr (NaN, NaN))
         else Inr (NaN, NaN))"

text \<open>
  A state after a sweep of two frequencies for one reception point, with a spectrum of
  2048 points at the sampling rate 44100 Hz.
\<close>

definition onePointTf :: tfMatrix where
  "onePointTf = \<lparr> rows = 2, cols = 1, coeff = (\<lambda>r c. (Dbl 3, Dbl 4)) \<rparr>"

definition sweptState :: tfState where
  "sweptState =
     \<lparr> m_numFreqPicture = 2048, m_tfFreqs = [Dbl (1 / 10), Dbl (11025 / 1024)],
       m_glottalSourceTF = onePointTf, m_noiseSourceTF = onePointTf,
       m_planeModeInputImpedance = onePointTf \<rparr>"

section \<open>Import of a geometry: \<open>Acoustic3dSimulation::extractContoursFromCsvFile\<close>\<close>

text \<open>
  A file is the list of its lines, or \<open>None\<close> when it cannot be opened. \<open>split\<close> gives the
  fields that the successive \<^verbatim>\<open>getline(stream, field, ';')\<close> read from a line: a
  \<^verbatim>\<open>getline\<close> fails when the stream is at its end, so an empty rest yields no field.

  The numbers read are of a type \<open>'n\<close>: \<open>stod\<close> is \<^verbatim>\<open>std::stod\<close>, which returns a number,
  throws \<^verbatim>\<open>std::invalid_argument\<close> or throws \<^verbatim>\<open>std::out_of_range\<close>; \<open>normalizeVec\<close> is
  \<^verbatim>\<open>Point2D::normalize\<close>, \<open>eqPoint\<close> the equality of two CGAL points, \<open>simplify\<close> the CGAL
  polyline simplification. They are parameters of the model.
\<close>

function split :: "string \<Rightarrow> string list" where
  "split s =
     (if s = [] then []
      else takeWhile (\<lambda>c. c \<noteq> CHR '';'') s #
             (case dropWhile (\<lambda>c. c \<noteq> CHR '';'') s of
                [] \<Rightarrow> []
              | sep # rest \<Rightarrow> split rest))"
  by pat_completeness auto
termination
proof (relation "measure length")
  show "wf (measure length)" by simp
next
  fix s :: string and sep rest
  assume "dropWhile (\<lambda>c. c \<noteq> CHR '';'') s = sep # rest"
  then have "length (sep # rest) \<le> length s"
    using length_dropWhile_le [of "\<lambda>c. c \<noteq> CHR '';''" s] by simp
  then show "(rest, s) \<in> measure length" by simp
qed

declare split.simps [simp del]

datatype 'n stodResult = Parsed 'n | InvalidArgument | StodRange

text \<open>
  The lambda \<open>strToDouble\<close>: on \<^verbatim>\<open>std::invalid_argument\<close> the variable keeps its value and
  \<open>abort\<close> is set unless the field is a lone carriage return; \<^verbatim>\<open>std::out_of_range\<close> is not
  caught and leaves the function.
\<close>

definition strToDouble ::
  "(string \<Rightarrow> 'n stodResult) \<Rightarrow> string \<Rightarrow> 'n \<Rightarrow> bool \<Rightarrow> error + 'n \<times> bool" where
  "strToDouble stod str result abort =
     (case stod str of
        Parsed v \<Rightarrow> Inr (v, abort)
      | InvalidArgument \<Rightarrow> Inr (result, abort \<or> str \<noteq> [CHR 0x0D])
      | StodRange \<Rightarrow> Inl StodOutOfRange)"

text \<open>The local variables that keep their value from one slice to the next.\<close>

record 'n csvVars =
  ctlPt :: "'n \<times> 'n"
  normalVec :: "'n \<times> 'n"
  scalings :: "'n \<times> 'n"
  coordValX :: 'n
  coordValY :: 'n

text \<open>The inner \<^verbatim>\<open>while\<close> loop, which reads the points of the contour.\<close>

fun contourLoop ::
  "(string \<Rightarrow> 'n stodResult) \<Rightarrow> string list \<Rightarrow> string list \<Rightarrow> 'n csvVars \<Rightarrow> bool \<Rightarrow>
   ('n \<times> 'n) list \<Rightarrow> error + 'n csvVars \<times> bool \<times> ('n \<times> 'n) list" where
  "contourLoop stod [] ty vars abort pts = Inr (vars, abort, pts)"
| "contourLoop stod (coordX # tx) ty vars abort pts =
     (if coordX = [] then Inr (vars, abort, pts)
      else
        (case ty of
           [] \<Rightarrow> Inr (vars, True, pts)
         | coordY # ty' \<Rightarrow>
             bindE (strToDouble stod coordX (coordValX vars) abort) (\<lambda>(vx, a1).
             bindE (strToDouble stod coordY (coordValY vars) a1) (\<lambda>(vy, a2).
               let vars' = vars \<lparr> coordValX := vx, coordValY := vy \<rparr>
               in if a2 then Inr (vars', True, pts)
                  else contourLoop stod tx ty' vars' a2 (pts @ [(vx, vy)])))))"

text \<open>
  The reading of one pair of fields, the same three times in the body of the outer loop
  (for the centerline point \<open>abort\<close> is still false): a field of the line of the \<open>x\<close>
  components, a field of the line of the \<open>y\<close> components, then the two conversions. \<open>None\<close>
  stands for \<^verbatim>\<open>abort = true; break\<close>.
\<close>

definition readField ::
  "(string \<Rightarrow> 'n stodResult) \<Rightarrow> string list \<Rightarrow> string list \<Rightarrow> 'n \<times> 'n \<Rightarrow> bool \<Rightarrow>
   error + (('n \<times> 'n) \<times> bool \<times> string list \<times> string list) option" where
  "readField stod tx ty cur abort =
     (case tx of
        [] \<Rightarrow> Inr None
      | coordX # tx' \<Rightarrow>
          if abort then Inr None
          else
            (case ty of
               [] \<Rightarrow> Inr None
             | coordY # ty' \<Rightarrow>
                 bindE (strToDouble stod coordX (fst cur) abort) (\<lambda>(vx, a1).
                 bindE (strToDouble stod coordY (snd cur) a1) (\<lambda>(vy, a2).
                   Inr (Some ((vx, vy), a2, tx', ty'))))))"

text \<open>
  The body of the outer loop up to the end of the contour, in three steps: the scaling
  factors and the contour, the normal, the centerline point. The result is \<open>None\<close> when
  \<open>abort\<close> is set, otherwise the points read.
\<close>

definition parseScalings ::
  "(string \<Rightarrow> 'n stodResult) \<Rightarrow> string list \<Rightarrow> string list \<Rightarrow> bool \<Rightarrow> 'n csvVars \<Rightarrow>
   error + 'n csvVars \<times> ('n \<times> 'n) list option" where
  "parseScalings stod tx ty abort vars =
     bindE (readField stod tx ty (scalings vars) abort) (\<lambda>r.
       case r of
         None \<Rightarrow> Inr (vars, None)
       | Some (s, a, tx', ty') \<Rightarrow>
           bindE (contourLoop stod tx' ty' (vars \<lparr> scalings := s \<rparr>) a []) (\<lambda>(vars', a', pts).
             if a' then Inr (vars', None) else Inr (vars', Some pts)))"

definition parseNormal ::
  "(string \<Rightarrow> 'n stodResult) \<Rightarrow> ('n \<times> 'n \<Rightarrow> 'n \<times> 'n) \<Rightarrow> string list \<Rightarrow> string list \<Rightarrow> bool \<Rightarrow>
   'n csvVars \<Rightarrow> error + 'n csvVars \<times> ('n \<times> 'n) list option" where
  "parseNormal stod normalizeVec tx ty abort vars =
     bindE (readField stod tx ty (normalVec vars) abort) (\<lambda>r.
       case r of
         None \<Rightarrow> Inr (vars, None)
       | Some (n, a, tx', ty') \<Rightarrow>
           parseScalings stod tx' ty' a (vars \<lparr> normalVec := normalizeVec n \<rparr>))"

definition parseSlice ::
  "(string \<Rightarrow> 'n stodResult) \<Rightarrow> ('n \<times> 'n \<Rightarrow> 'n \<times> 'n) \<Rightarrow> string \<Rightarrow> string \<Rightarrow> 'n csvVars \<Rightarrow>
   error + 'n csvVars \<times> ('n \<times> 'n) list option" where
  "parseSlice stod normalizeVec lineX lineY vars =
     bindE (readField stod (split lineX) (split lineY) (ctlPt vars) False) (\<lambda>r.
       case r of
         None \<Rightarrow> Inr (vars, None)
       | Some (c, a, tx', ty') \<Rightarrow>
           parseNormal stod normalizeVec tx' ty' a (vars \<lparr> ctlPt := c \<rparr>))"

record 'n csvOut =
  contours :: "('n \<times> 'n) list list list"
  surfaceIdx :: "int list list list"
  centerLine :: "('n \<times> 'n) list"
  normals :: "('n \<times> 'n) list"
  scalingFactorsOut :: "('n \<times> 'n) list"

text \<open>
  What happens to the points of a slice between the size check and the storage: the
  last point is erased when it equals the first, then the contour is simplified when
  this is requested and more than ten points are left.
\<close>

definition finishContour ::
  "('n \<times> 'n \<Rightarrow> 'n \<times> 'n \<Rightarrow> bool) \<Rightarrow> (('n \<times> 'n) list \<Rightarrow> ('n \<times> 'n) list) \<Rightarrow> bool \<Rightarrow>
   ('n \<times> 'n) list \<Rightarrow> ('n \<times> 'n) list" where
  "finishContour eqPoint simplify simplifyContours pts =
     (let erased = (if eqPoint (hd pts) (last pts) then butlast pts else pts)
      in if simplifyContours \<and> 10 < length erased then simplify erased else erased)"

definition storeSlice ::
  "('n \<times> 'n \<Rightarrow> 'n \<times> 'n \<Rightarrow> bool) \<Rightarrow> (('n \<times> 'n) list \<Rightarrow> ('n \<times> 'n) list) \<Rightarrow> bool \<Rightarrow>
   'n csvVars \<Rightarrow> ('n \<times> 'n) list \<Rightarrow> 'n csvOut \<Rightarrow> 'n csvOut" where
  "storeSlice eqPoint simplify simplifyContours vars pts out =
     (let c = finishContour eqPoint simplify simplifyContours pts
      in \<lparr> contours = contours out @ [[c]],
           surfaceIdx = surfaceIdx out @ [[replicate (length c) 0]],
           centerLine = centerLine out @ [ctlPt vars],
           normals = normals out @ [normalVec vars],
           scalingFactorsOut = scalingFactorsOut out @ [scalings vars] \<rparr>)"

text \<open>
  The outer loop over the pairs of lines. It returns \<open>abort\<close>, the vectors filled so
  far, and the list \<open>parsed\<close> of the contours whose fields were all read, in the order of
  the file, which the source does not keep: it records what the loop has seen.
\<close>

fun readSlices ::
  "(string \<Rightarrow> 'n stodResult) \<Rightarrow> ('n \<times> 'n \<Rightarrow> 'n \<times> 'n) \<Rightarrow> ('n \<times> 'n \<Rightarrow> 'n \<times> 'n \<Rightarrow> bool) \<Rightarrow>
   (('n \<times> 'n) list \<Rightarrow> ('n \<times> 'n) list) \<Rightarrow> bool \<Rightarrow> string list \<Rightarrow> 'n csvVars \<Rightarrow> 'n csvOut \<Rightarrow>
   ('n \<times> 'n) list list \<Rightarrow> error + bool \<times> 'n csvOut \<times> ('n \<times> 'n) list list" where
  "readSlices stod normalizeVec eqPoint simplify simplifyContours [] vars out parsed =
     Inr (False, out, parsed)"
| "readSlices stod normalizeVec eqPoint simplify simplifyContours [lineX] vars out parsed =
     Inr (True, out, parsed)"
| "readSlices stod normalizeVec eqPoint simplify simplifyContours (lineX # lineY # rest) vars out parsed =
     (case parseSlice stod normalizeVec lineX lineY vars of
        Inl e \<Rightarrow> Inl e
      | Inr (vars', None) \<Rightarrow> Inr (True, out, parsed)
      | Inr (vars', Some pts) \<Rightarrow>
          if length pts < 3 then Inr (True, out, parsed @ [pts])
          else readSlices stod normalizeVec eqPoint simplify simplifyContours rest vars'
                 (storeSlice eqPoint simplify simplifyContours vars' pts out) (parsed @ [pts]))"

definition extractContoursFromCsvFile ::
  "(string \<Rightarrow> 'n stodResult) \<Rightarrow> ('n \<times> 'n \<Rightarrow> 'n \<times> 'n) \<Rightarrow> ('n \<times> 'n \<Rightarrow> 'n \<times> 'n \<Rightarrow> bool) \<Rightarrow>
   (('n \<times> 'n) list \<Rightarrow> ('n \<times> 'n) list) \<Rightarrow> string list option \<Rightarrow> bool \<Rightarrow> 'n csvVars \<Rightarrow> 'n csvOut \<Rightarrow>
   error + bool \<times> 'n csvOut \<times> ('n \<times> 'n) list list" where
  "extractContoursFromCsvFile stod normalizeVec eqPoint simplify geoFile simplifyContours vars out =
     (case geoFile of
        None \<Rightarrow> Inr (False, out, [])
      | Some ls \<Rightarrow>
          if ls \<noteq> []
          then (case readSlices stod normalizeVec eqPoint simplify simplifyContours ls vars out [] of
                  Inl e \<Rightarrow> Inl e
                | Inr (abort, out', parsed) \<Rightarrow>
                    Inr (\<not> (abort \<or> length (contours out') < 2), out', parsed))
          else Inr (False, out, []))"

text \<open>The output vectors of a caller that passes them empty, as \<open>createCrossSections\<close> does.\<close>

definition emptyOut :: "'n csvOut" where
  "emptyOut = \<lparr> contours = [], surfaceIdx = [], centerLine = [], normals = [],
                scalingFactorsOut = [] \<rparr>"

text \<open>
  For the examples: a conversion that knows the fields \<open>0\<close>, \<open>1\<close> and \<open>2\<close>, the local
  variables at zero, and a file of two slices, each a closed triangle.
\<close>

definition digitStod :: "string \<Rightarrow> int stodResult" where
  "digitStod s =
     (if s = ''0'' then Parsed 0
      else if s = ''1'' then Parsed 1
      else if s = ''2'' then Parsed 2
      else InvalidArgument)"

definition zeroVars :: "int csvVars" where
  "zeroVars = \<lparr> ctlPt = (0, 0), normalVec = (0, 0), scalings = (0, 0),
                coordValX = 0, coordValY = 0 \<rparr>"

definition twoSlices :: "string list" where
  "twoSlices = [''0;0;1;0;1;0;0'', ''0;1;1;0;0;1;0'', ''1;0;1;0;2;0;0'', ''0;1;1;0;0;2;0'']"

text \<open>
  The same conversion with the field \<open>1e999\<close>, which is a number beyond the range of a
  double: \<^verbatim>\<open>stod\<close> throws \<^verbatim>\<open>std::out_of_range\<close> on it. The file has one good slice and
  then a slice whose first field is that number.
\<close>

definition rangeStod :: "string \<Rightarrow> int stodResult" where
  "rangeStod s = (if s = ''1e999'' then StodRange else digitStod s)"

definition overflowFile :: "string list" where
  "overflowFile = [''0;0;1;0;1;0;0'', ''0;1;1;0;0;1;0'', ''1e999;0;1;0;2;0;0'', ''0;1;1;0;0;2;0'']"

section \<open>Properties of the rounding\<close>

lemma pow2_powr: "pow2 k = 2 powr of_int k"
proof (cases "0 \<le> k")
  case True
  then have "(2::real) powr of_int k = 2 powr real (nat k)" by simp
  also have "\<dots> = 2 ^ nat k" by (subst powr_realpow) simp_all
  finally show ?thesis using True by (simp add: pow2_def)
next
  case False
  then have "(2::real) powr of_int k = 2 powr (- real (nat (- k)))" by simp
  also have "\<dots> = 1 / 2 powr real (nat (- k))" by (simp add: powr_minus divide_inverse)
  also have "\<dots> = 1 / 2 ^ nat (- k)" by (subst powr_realpow) simp_all
  finally show ?thesis using False by (simp add: pow2_def)
qed

lemma round64_zero: "round64 0 = Dbl 0"
  by (simp add: round64_def)

lemma roundHalfEven_of_int: "roundHalfEven (of_int n) = n"
  by (simp add: roundHalfEven_def)

lemma roundHalfEven_err: "\<bar>of_int (roundHalfEven m) - m\<bar> \<le> 1 / 2"
  unfolding roundHalfEven_def Let_def by (auto; linarith)

lemma ulp_pos: "0 < ulp x"
  by (simp add: ulp_def pow2_powr)

lemma ulp_eq:
  assumes "x \<noteq> 0" and "pow2 e \<le> \<bar>x\<bar>" and "\<bar>x\<bar> < pow2 (e + 1)"
  shows "ulp x = pow2 (max (e - 52) (- 1074))"
proof -
  have "\<lfloor>log 2 \<bar>x\<bar>\<rfloor> = e"
    using assms unfolding pow2_powr by (subst floor_log_eq_powr_iff) simp_all
  then show ?thesis by (simp add: ulp_def)
qed

lemma roundToUlp_err: "\<bar>roundToUlp x - x\<bar> \<le> ulp x / 2"
proof -
  define u where "u = ulp x"
  have u: "0 < u" by (simp add: u_def ulp_pos)
  have "roundToUlp x - x = (of_int (roundHalfEven (x / u)) - x / u) * u"
    using u by (simp add: roundToUlp_def u_def [symmetric] algebra_simps)
  then have "\<bar>roundToUlp x - x\<bar> = \<bar>of_int (roundHalfEven (x / u)) - x / u\<bar> * u"
    using u by (simp add: abs_mult)
  also have "\<dots> \<le> 1 / 2 * u"
    using roundHalfEven_err [of "x / u"] u by (intro mult_right_mono) simp_all
  finally show ?thesis by (simp add: u_def)
qed

lemma ulp_le:
  assumes "x \<noteq> 0"
  shows "ulp x \<le> max (\<bar>x\<bar> / 2 ^ 52) (pow2 (- 1074))"
proof -
  let ?e = "\<lfloor>log 2 \<bar>x\<bar>\<rfloor>"
  have "2 powr of_int ?e \<le> 2 powr (log 2 \<bar>x\<bar>)"
    by (intro powr_mono) simp_all
  also have "\<dots> = \<bar>x\<bar>" using assms by simp
  finally have a: "2 powr of_int ?e \<le> \<bar>x\<bar>" .
  show ?thesis
  proof (cases "?e - 52 \<le> - 1074")
    case True
    then show ?thesis by (simp add: ulp_def max_def)
  next
    case False
    then have "ulp x = 2 powr (of_int ?e - 52)" by (simp add: ulp_def max_def pow2_powr)
    also have "\<dots> = 2 powr of_int ?e / 2 ^ 52"
      by (simp add: powr_diff)
    also have "\<dots> \<le> \<bar>x\<bar> / 2 ^ 52" using a by (simp add: divide_right_mono)
    finally show ?thesis by simp
  qed
qed

lemma roundToUlp_close:
  "\<bar>roundToUlp x - x\<bar> \<le> \<bar>x\<bar> / 2 ^ 53 + pow2 (- 1075)"
proof (cases "x = 0")
  case True
  then show ?thesis by (simp add: roundToUlp_def roundHalfEven_def pow2_def)
next
  case False
  have "\<bar>roundToUlp x - x\<bar> \<le> ulp x / 2" by (rule roundToUlp_err)
  also have "\<dots> \<le> max (\<bar>x\<bar> / 2 ^ 52) (pow2 (- 1074)) / 2"
    using ulp_le [OF False] by simp
  also have "\<dots> \<le> \<bar>x\<bar> / 2 ^ 53 + pow2 (- 1075)"
    by (simp add: max_def pow2_def)
  finally show ?thesis .
qed

lemma round64_eval:
  assumes "x \<noteq> 0" and "pow2 e \<le> \<bar>x\<bar>" and "\<bar>x\<bar> < pow2 (e + 1)"
    and "q = pow2 (max (e - 52) (- 1074))"
    and "y = of_int (roundHalfEven (x / q)) * q"
  shows "round64 x = (if DBL_MAX < \<bar>y\<bar> then dinf (x < 0) else Dbl y)"
  using assms(1,4,5) ulp_eq [OF assms(1-3)] by (simp add: round64_def roundToUlp_def)

text \<open>
  A number within half a unit of the range of the finite doubles does not overflow, and
  the rounding is within half an ulp.
\<close>

lemma roundHalfEven_bound:
  assumes "\<bar>m\<bar> \<le> of_int k + 1 / 4"
  shows "\<bar>roundHalfEven m\<bar> \<le> k"
proof -
  define f where "f = \<lfloor>m\<rfloor>"
  have f: "of_int f \<le> m" "m < of_int f + 1" by (simp_all add: f_def)
  have up: "f \<le> k"
  proof -
    have "of_int f \<le> (of_int k :: real) + 1 / 4" using f assms by linarith
    then have "of_int f < (of_int (k + 1) :: real)" by simp
    then have "f < k + 1" by (simp only: of_int_less_iff)
    then show ?thesis by simp
  qed
  have lo: "- k - 1 \<le> f"
  proof -
    have "(of_int (- k - 2) :: real) < of_int f" using f assms by simp
    then have "- k - 2 < f" by (simp only: of_int_less_iff)
    then show ?thesis by simp
  qed
  have r: "roundHalfEven m = f \<or> roundHalfEven m = f + 1"
    "m - of_int f < 1 / 2 \<longrightarrow> roundHalfEven m = f"
    "1 / 2 < m - of_int f \<longrightarrow> roundHalfEven m = f + 1"
    unfolding roundHalfEven_def Let_def f_def [symmetric] by auto
  have le: "roundHalfEven m \<le> k"
  proof (cases "f = k")
    case True
    then have "m - of_int f < 1 / 2" using f assms by simp
    with r(2) True show ?thesis by simp
  next
    case False
    with up r(1) show ?thesis by auto
  qed
  have ge: "- k \<le> roundHalfEven m"
  proof (cases "f = - k - 1")
    case True
    then have "1 / 2 < m - of_int f" using f assms by simp
    with r(3) True show ?thesis by simp
  next
    case False
    with lo r(1) show ?thesis by auto
  qed
  from le ge show ?thesis by simp
qed

lemma round64_in_range:
  assumes "\<bar>x\<bar> \<le> DBL_MAX + 1 / 2"
  shows "round64 x = Dbl (roundToUlp x)"
proof (cases "\<bar>x\<bar> < 2 ^ 1023")
  case True
  have "\<bar>roundToUlp x\<bar> \<le> \<bar>x\<bar> + \<bar>roundToUlp x - x\<bar>" by simp
  also have "\<dots> \<le> \<bar>x\<bar> + (\<bar>x\<bar> / 2 ^ 53 + pow2 (- 1075))"
    using roundToUlp_close [of x] by simp
  also have "\<dots> \<le> 2 ^ 1023 + (2 ^ 1023 / 2 ^ 53 + pow2 (- 1075))"
    using True by (intro add_mono divide_right_mono) simp_all
  also have "\<dots> \<le> DBL_MAX"
    by (simp add: DBL_MAX_def pow2_def)
  finally have "\<not> DBL_MAX < \<bar>roundToUlp x\<bar>" by simp
  moreover have "roundToUlp 0 = 0" by (simp add: roundToUlp_def roundHalfEven_def)
  ultimately show ?thesis by (simp add: round64_def)
next
  case False
  then have x: "x \<noteq> 0" "pow2 1023 \<le> \<bar>x\<bar>" by (auto simp: pow2_def)
  have "\<bar>x\<bar> < pow2 (1023 + 1)" using assms by (simp add: pow2_def DBL_MAX_def)
  with x have u: "ulp x = pow2 (max (1023 - 52) (- 1074))" by (intro ulp_eq)
  then have u: "ulp x = 2 ^ 971" by (simp add: pow2_def)
  have "\<bar>x / 2 ^ 971\<bar> \<le> of_int (2 ^ 53 - 1) + 1 / 4"
    using assms by (simp add: DBL_MAX_def field_simps)
  then have "\<bar>roundHalfEven (x / 2 ^ 971)\<bar> \<le> 2 ^ 53 - 1"
    by (rule roundHalfEven_bound)
  then have "\<bar>of_int (roundHalfEven (x / 2 ^ 971)) :: real\<bar> \<le> of_int (2 ^ 53 - 1)"
    by (simp only: of_int_abs [symmetric] of_int_le_iff)
  then have "\<bar>of_int (roundHalfEven (x / 2 ^ 971)) :: real\<bar> * 2 ^ 971 \<le> of_int (2 ^ 53 - 1) * 2 ^ 971"
    by (intro mult_right_mono) simp_all
  then have "\<bar>roundToUlp x\<bar> \<le> DBL_MAX"
    by (simp add: roundToUlp_def u abs_mult DBL_MAX_def)
  then show ?thesis using x by (simp add: round64_def)
qed

text \<open>Some values.\<close>

lemma round64_one: "round64 1 = Dbl 1"
  by (subst round64_eval [where e = "0", OF _ _ _ refl refl])
     (simp_all add: roundHalfEven_def DBL_MAX_def Let_def pow2_def)

lemma round64_minus_one: "round64 (- 1) = Dbl (- 1)"
  by (subst round64_eval [where e = "0", OF _ _ _ refl refl])
     (simp_all add: roundHalfEven_def DBL_MAX_def Let_def pow2_def)

lemma round64_overflow: "round64 (2 ^ 1024) = PosInf"
  by (subst round64_eval [where e = "1024", OF _ _ _ refl refl])
     (simp_all add: roundHalfEven_def DBL_MAX_def Let_def pow2_def dinf_def)

lemma round64_two_1023: "round64 (2 ^ 1023) = Dbl (2 ^ 1023)"
  by (subst round64_eval [where e = "1023", OF _ _ _ refl refl])
     (simp_all add: roundHalfEven_def DBL_MAX_def Let_def pow2_def dinf_def)


section \<open>Properties of \<open>getCurvatureAngleShift\<close>\<close>


text \<open>
  The same happens for finite points and perpendicular unit normals when a difference
  overflows: \<open>P1 = (0, - 2\<^sup>1\<^sup>0\<^sup>2\<^sup>3)\<close>, \<open>P2 = (0, 2\<^sup>1\<^sup>0\<^sup>2\<^sup>3)\<close>, \<open>N1 = (0, 1)\<close>, \<open>N2 = (1, 0)\<close>.
\<close>

lemma getCurvatureAngleShift_overflow:
  "radius (getCurvatureAngleShift (point 0 (- farAway)) (point 0 farAway) (point 0 1) (point 1 0))
     = PosInf
   \<and> shift (getCurvatureAngleShift (point 0 (- farAway)) (point 0 farAway) (point 0 1) (point 1 0))
     = NaN"
proof -
  have "round64 (2 * farAway) = PosInf"
    using round64_overflow by (simp add: farAway_def)
  then show ?thesis
    by (simp add: getCurvatureAngleShift_def Let_def point_def sub64_def mul64_def div64_def
      fl_def dsub_def round64_zero round64_one dinf_def)
qed



section \<open>Properties of the mode selection\<close>

lemma scanModes_takeWhile:
  "idx \<le> length evs \<Longrightarrow>
   scanModes evs k c idx freqs =
     (let tw = takeWhile (\<lambda>ev. ev < k) (drop idx evs)
      in if length tw < length evs - idx
         then Inr (idx + length tw, freqs @ map (eigenFreq c) tw)
         else Inl OutOfRange)"
proof (induction evs k c idx freqs rule: scanModes.induct)
  case (1 evs k2max c idx freqs)
  show ?case
  proof (cases "idx < length evs")
    case False
    with "1.prems" show ?thesis by (subst scanModes.simps) (simp add: Let_def)
  next
    case True
    then have d: "drop idx evs = evs ! idx # drop (Suc idx) evs"
      by (simp add: Cons_nth_drop_Suc)
    show ?thesis
    proof (cases "evs ! idx < k2max")
      case False
      with True d show ?thesis by (simp add: scanModes.simps [of evs k2max c idx freqs] Let_def)
    next
      case lt: True
      have "scanModes evs k2max c idx freqs =
            scanModes evs k2max c (idx + 1) (freqs @ [eigenFreq c (evs ! idx)])"
        using True lt by (simp add: scanModes.simps [of evs k2max c idx freqs])
      also have "\<dots> = (let tw = takeWhile (\<lambda>ev. ev < k2max) (drop (idx + 1) evs)
          in if length tw < length evs - (idx + 1)
             then Inr (idx + 1 + length tw, (freqs @ [eigenFreq c (evs ! idx)]) @ map (eigenFreq c) tw)
             else Inl OutOfRange)"
        using "1.IH" True lt by simp
      finally show ?thesis
        using True lt d by (auto simp: Let_def)
    qed
  qed
qed

lemma takeWhile_filter_sorted:
  "sorted (evs :: real list) \<Longrightarrow> takeWhile (\<lambda>ev. ev < k) evs = filter (\<lambda>ev. ev < k) evs"
proof (induction evs)
  case Nil
  then show ?case by simp
next
  case (Cons x xs)
  show ?case
  proof (cases "x < k")
    case True
    with Cons show ?thesis by simp
  next
    case False
    with Cons.prems have "\<forall>y\<in>set xs. \<not> y < k" by auto
    then have "filter (\<lambda>ev. ev < k) xs = []" by (simp add: filter_empty_conv)
    with False show ?thesis by simp
  qed
qed

lemma pushFreqs_in_range:
  "\<forall>i\<in>set is. i < length evs \<Longrightarrow>
   pushFreqs evs c is freqs = Inr (freqs @ map (\<lambda>i. eigenFreq c (evs ! i)) is)"
  by (induction "is" arbitrary: freqs) (simp_all add: readAt_def)

lemma pushFreqs_out_of_range:
  "\<exists>i\<in>set is. \<not> i < length evs \<Longrightarrow> pushFreqs evs c is freqs = Inl OutOfRange"
  by (induction "is" arbitrary: freqs) (auto simp: readAt_def)

lemma map_nth_upt_take:
  "n \<le> length xs \<Longrightarrow> map (\<lambda>i. f (xs ! i)) [0 ..< n] = map f (take n xs)"
  by (simp add: list_eq_iff_nth_eq)

text \<open>The scan over ascending eigenvalues, when it stops inside the vector.\<close>

lemma scanModes_sorted:
  assumes "sorted evs" and "\<exists>ev\<in>set evs. \<not> ev < k"
  shows "scanModes evs k c 0 [] =
           Inr (length (filter (\<lambda>ev. ev < k) evs), map (eigenFreq c) (filter (\<lambda>ev. ev < k) evs))"
proof -
  from assms(2) obtain ev where "ev \<in> set evs" and "\<not> ev < k" by blast
  then have "length (filter (\<lambda>ev. ev < k) evs) < length evs"
    by (rule length_filter_less)
  then show ?thesis
    using assms(1) by (simp add: scanModes_takeWhile takeWhile_filter_sorted Let_def)
qed

text \<open>The scan when every eigenvalue is below the bound: it reads one element past the end.\<close>

lemma scanModes_all_below:
  assumes "\<forall>ev\<in>set evs. ev < k"
  shows "scanModes evs k c 0 [] = Inl OutOfRange"
proof -
  have tw: "takeWhile (\<lambda>ev. ev < k) evs = evs"
    using assms by simp
  have "scanModes evs k c 0 [] =
     (let tw = takeWhile (\<lambda>ev. ev < k) (drop 0 evs)
      in if length tw < length evs - 0
         then Inr (0 + length tw, [] @ map (eigenFreq c) tw)
         else Inl OutOfRange)"
    by (rule scanModes_takeWhile) simp
  also have "\<dots> = Inl OutOfRange"
    unfolding drop_0 tw Let_def by simp
  finally show ?thesis .
qed

lemma filter_prefix_sorted:
  "sorted (evs :: real list) \<Longrightarrow>
   take (length (filter (\<lambda>ev. ev < k) evs)) evs = filter (\<lambda>ev. ev < k) evs"
proof -
  assume "sorted evs"
  then have "filter (\<lambda>ev. ev < k) evs = takeWhile (\<lambda>ev. ev < k) evs"
    by (simp add: takeWhile_filter_sorted)
  then show ?thesis
    using takeWhile_eq_take [of "\<lambda>ev. ev < k" evs] by simp
qed

lemma maxWaveNumber_airParams: "5 < maxWaveNumber airParams \<and> maxWaveNumber airParams < 21"
proof -
  have e: "maxWaveNumber airParams = (8 * pi / 7) ^ 2"
    by (simp add: maxWaveNumber_def airParams_def)
  have "16 / 7 \<le> 8 * pi / 7" using pi_ge_two by simp
  then have "(16 / 7) ^ 2 \<le> (8 * pi / 7) ^ 2"
    by (intro power_mono) simp_all
  moreover have "8 * pi / 7 < 32 / 7" using pi_less_4 by simp
  then have "(8 * pi / 7) ^ 2 < (32 / 7) ^ 2"
    using pi_gt_zero by (intro power_strict_mono) simp_all
  ultimately show ?thesis
    unfolding e by (simp add: power2_eq_square)
qed

text \<open>
  With ascending eigenvalues, \<open>computeModes\<close> called with mode count 0 keeps exactly
  the eigenvalues below the square of \<open>2 pi maxCutOnFreq / c\<close>, which are the first ones, and their
  eigenvectors; called with a mode count \<open>N > 0\<close> it keeps the first \<open>N\<close> eigenvalues and
  eigenvectors. The first eigenfrequency is set to 0. This holds when the run stays
  inside the vectors: with count 0 some eigenvalue reaches the bound and the first one is
  below it; with count \<open>N\<close> there are at least \<open>N\<close> eigenvalues.
\<close>

lemma computeModes_retained:
  assumes "sorted evs" and "length evecs = length evs" and "readAt evecs 0 = Inr col0"
    and "readAt col0 0 = Inr v"
  shows
    "((\<exists>ev\<in>set evs. (2 * pi * maxCutOnFreq p / sndSpeed p)\<^sup>2 \<le> ev) \<and> (\<exists>ev\<in>set evs. ev < (2 * pi * maxCutOnFreq p / sndSpeed p)\<^sup>2) \<longrightarrow>
        (\<exists>n. n = length (filter (\<lambda>ev. ev < (2 * pi * maxCutOnFreq p / sndSpeed p)\<^sup>2) evs) \<and>
           take n evs = filter (\<lambda>ev. ev < (2 * pi * maxCutOnFreq p / sndSpeed p)\<^sup>2) evs \<and>
           computeModes evs evecs 0 p =
             Inr \<lparr> m_modesNumber = n,
                   m_eigenFreqs = (map (eigenFreq (sndSpeed p)) (take n evs))[0 := Dbl 0],
                   m_modes = map (map (\<lambda>x. x * (if 0 < v then 1 else - 1))) (take n evecs) \<rparr>))
     \<and> (0 < N \<and> N \<le> int (length evs) \<longrightarrow>
          computeModes evs evecs N p =
            Inr \<lparr> m_modesNumber = nat N,
                  m_eigenFreqs = (map (eigenFreq (sndSpeed p)) (take (nat N) evs))[0 := Dbl 0],
                  m_modes = map (map (\<lambda>x. x * (if 0 < v then 1 else - 1))) (take (nat N) evecs) \<rparr>)"
  unfolding maxWaveNumber_def [symmetric]
proof (intro conjI impI)
  assume h: "(\<exists>ev\<in>set evs. maxWaveNumber p \<le> ev) \<and> (\<exists>ev\<in>set evs. ev < maxWaveNumber p)"
  let ?k = "maxWaveNumber p"
  let ?f = "filter (\<lambda>ev. ev < ?k) evs"
  from h have stop: "\<exists>ev\<in>set evs. \<not> ev < ?k" by (auto simp: not_less)
  have scan: "scanModes evs ?k (sndSpeed p) 0 [] = Inr (length ?f, map (eigenFreq (sndSpeed p)) ?f)"
    using assms(1) stop by (rule scanModes_sorted)
  from h have ne: "?f \<noteq> []" by (auto simp: filter_empty_conv)
  have le: "length ?f \<le> length evecs"
    using assms(2) by simp
  have pre: "take (length ?f) evs = ?f"
    using assms(1) by (rule filter_prefix_sorted)
  have "computeModes evs evecs 0 p =
          Inr \<lparr> m_modesNumber = length ?f,
                m_eigenFreqs = (map (eigenFreq (sndSpeed p)) ?f)[0 := Dbl 0],
                m_modes = map (map (\<lambda>x. x * (if 0 < v then 1 else - 1))) (take (length ?f) evecs) \<rparr>"
    using scan ne le assms(3,4) by (simp add: computeModes_def extractModes_def Let_def)
  with pre show "\<exists>n. n = length ?f \<and> take n evs = ?f \<and>
           computeModes evs evecs 0 p =
             Inr \<lparr> m_modesNumber = n,
                   m_eigenFreqs = (map (eigenFreq (sndSpeed p)) (take n evs))[0 := Dbl 0],
                   m_modes = map (map (\<lambda>x. x * (if 0 < v then 1 else - 1))) (take n evecs) \<rparr>"
    by simp
next
  assume h: "0 < N \<and> N \<le> int (length evs)"
  then have n: "nat N \<le> length evs" "0 < nat N" by linarith+
  have "pushFreqs evs (sndSpeed p) [0 ..< nat N] [] =
          Inr ([] @ map (\<lambda>i. eigenFreq (sndSpeed p) (evs ! i)) [0 ..< nat N])"
    using n by (intro pushFreqs_in_range) simp
  then have push: "pushFreqs evs (sndSpeed p) [0 ..< nat N] [] =
          Inr (map (eigenFreq (sndSpeed p)) (take (nat N) evs))"
    using n by (simp add: map_nth_upt_take)
  have ne: "map (eigenFreq (sndSpeed p)) (take (nat N) evs) \<noteq> []"
    using n by auto
  show "computeModes evs evecs N p =
            Inr \<lparr> m_modesNumber = nat N,
                  m_eigenFreqs = (map (eigenFreq (sndSpeed p)) (take (nat N) evs))[0 := Dbl 0],
                  m_modes = map (map (\<lambda>x. x * (if 0 < v then 1 else - 1))) (take (nat N) evecs) \<rparr>"
    using h push ne n assms(2,3,4) by (simp add: computeModes_def extractModes_def Let_def)
qed

lemma computeModes_retained_example:
  "computeModes [0, 1, 30] threeModes 0 airParams =
     Inr \<lparr> m_modesNumber = 2,
           m_eigenFreqs = [Dbl 0, Dbl (35000 / 2 / pi)],
           m_modes = [[1, 1, 1], [1, 0, - 1]] \<rparr>
   \<and> computeModes [0, 1, 30] threeModes 1 airParams =
     Inr \<lparr> m_modesNumber = 1, m_eigenFreqs = [Dbl 0], m_modes = [[1, 1, 1]] \<rparr>"
proof -
  have s: "sorted [0, 1, 30 :: real]" by simp
  have l: "length threeModes = length [0, 1, 30 :: real]" by (simp add: threeModes_def)
  have c: "readAt threeModes 0 = Inr [1, 1, 1]" by (simp add: readAt_def threeModes_def)
  have v: "readAt [1, 1, 1 :: real] 0 = Inr 1" by (simp add: readAt_def)
  note t = computeModes_retained [OF s l c v, of airParams 1, folded maxWaveNumber_def]
  have k: "5 < maxWaveNumber airParams" "maxWaveNumber airParams < 21"
    using maxWaveNumber_airParams by simp_all
  have f: "filter (\<lambda>ev. ev < maxWaveNumber airParams) [0, 1, 30] = [0, 1]"
    using k by simp
  have e: "eigenFreq (sndSpeed airParams) 1 = Dbl (35000 / 2 / pi)"
    by (simp add: eigenFreq_def airParams_def)
  from t k f e show ?thesis
    by (simp add: threeModes_def)
qed

text \<open>
  C8 does not hold. With mode count 0 and every eigenvalue below the bound, the loop
  condition reads \<open>eigenvalues()[idx]\<close> at \<open>idx = size\<close> before it tests \<open>idx < size\<close>.
  Here the three eigenvalues 0, 1, 3 are below the square of \<open>2 pi 20000 / 35000\<close>, about 12.9.
\<close>

theorem computeModes_scan_out_of_range:
  "computeModes [0, 1, 3] threeModes 0 airParams = Inl OutOfRange"
proof -
  have "\<forall>ev\<in>set [0, 1, 3]. ev < maxWaveNumber airParams"
    using maxWaveNumber_airParams by simp
  then have "scanModes [0, 1, 3] (maxWaveNumber airParams) (sndSpeed airParams) 0 [] = Inl OutOfRange"
    by (rule scanModes_all_below)
  then show ?thesis
    by (simp add: computeModes_def)
qed

text \<open>
  C3 does not hold on every mesh. With mode count 0 the modes to retain are those with an
  eigenvalue below the square of \<open>2 pi maxCutOnFreq / c\<close>. On the mesh of three vertices
  with the eigenvalues 0, 2 and 4, all below the square of \<open>2 pi 20000 / 35000\<close>, the three
  modes are to be retained; the scan reads a fourth eigenvalue and nothing is retained.
\<close>

theorem computeModes_all_below:
  "(0 :: real) < (2 * pi * 20000 / 35000)\<^sup>2 \<and> (2 :: real) < (2 * pi * 20000 / 35000)\<^sup>2
   \<and> (4 :: real) < (2 * pi * 20000 / 35000)\<^sup>2
   \<and> computeModes [0, 2, 4] threeModes 0 airParams = Inl OutOfRange"
proof -
  have e: "maxWaveNumber airParams = (2 * pi * 20000 / 35000)\<^sup>2"
    by (simp add: maxWaveNumber_def airParams_def)
  have b: "\<forall>ev\<in>set [0, 2, 4]. ev < maxWaveNumber airParams"
    using maxWaveNumber_airParams by simp
  then have "scanModes [0, 2, 4] (maxWaveNumber airParams) (sndSpeed airParams) 0 [] = Inl OutOfRange"
    by (rule scanModes_all_below)
  then have "computeModes [0, 2, 4] threeModes 0 airParams = Inl OutOfRange"
    by (simp add: computeModes_def)
  with b show ?thesis
    unfolding e by simp
qed

section \<open>Properties of the junction step\<close>

text \<open>
  C1, amended. With the \<open>MAGNUS\<close> propagation method, in both propagation directions, the junction
  step of \<open>propagateImpedAdmit\<close> takes the admittance update (contraction) exactly when
  \<open>area * scale\<^sup>2\<close> of the section entered exceeds that of the section left, and the
  impedance update (expansion) otherwise; the junction step of \<open>propagateVelocityPress\<close>
  takes the pressure update exactly when \<open>area * scale\<^sup>2\<close> of the section left exceeds
  that of the section entered, and the velocity update otherwise. In all four
  comparisons the upstream section enters with its exit scale factor and the downstream
  section with its entry scale factor.
\<close>

theorem junction_classifier:
  assumes "propMethod p = MAGNUS" and "direction = 1 \<or> direction = - 1"
    and "readAtI secs i = Inr si"
  shows
    "(readAtI secs (i - direction) = Inr sp \<and> scatteringImpedAdmit la direction si sp = Inr (F, G) \<longrightarrow>
        junctionImpedAdmit la p freq secs i direction =
          (if sideQuantity i (i - direction) si > sideQuantity (i - direction) i sp
           then (if direction = - 1
                 then admitContractionBack la p (wallInterfaceAdmit p freq) si sp F G
                 else admitContractionFwd la p (wallInterfaceAdmit p freq) si sp F G)
           else (if direction = - 1
                 then impedExpansionBack la p (wallInterfaceAdmit p freq) si sp F G
                 else impedExpansionFwd la p (wallInterfaceAdmit p freq) si sp F G)))
     \<and> (readAtI secs (i + direction) = Inr sn \<and> scatteringVelocityPress la direction si sn = Inr (F', G') \<longrightarrow>
        junctionVelocityPress la p freq secs i direction =
          (if sideQuantity i (i + direction) si > sideQuantity (i + direction) i sn
           then (if direction = - 1
                 then pressContractionBack la si sn F'
                 else pressContractionFwd la si sn F')
           else (if direction = - 1
                 then veloExpansionBack la p (wallInterfaceAdmit p freq) si sn F' G'
                 else veloExpansionFwd la p (wallInterfaceAdmit p freq) si sn F' G')))"
proof (intro conjI impI)
  assume h: "readAtI secs (i - direction) = Inr sp \<and> scatteringImpedAdmit la direction si sp = Inr (F, G)"
  from assms(2) show "junctionImpedAdmit la p freq secs i direction =
          (if sideQuantity i (i - direction) si > sideQuantity (i - direction) i sp
           then (if direction = - 1
                 then admitContractionBack la p (wallInterfaceAdmit p freq) si sp F G
                 else admitContractionFwd la p (wallInterfaceAdmit p freq) si sp F G)
           else (if direction = - 1
                 then impedExpansionBack la p (wallInterfaceAdmit p freq) si sp F G
                 else impedExpansionFwd la p (wallInterfaceAdmit p freq) si sp F G))"
  proof
    assume "direction = 1"
    then show ?thesis
      using assms(1,3) h by (simp add: junctionImpedAdmit_def bindE_def sideQuantity_def Let_def)
  next
    assume "direction = - 1"
    then show ?thesis
      using assms(1,3) h by (simp add: junctionImpedAdmit_def bindE_def sideQuantity_def Let_def)
  qed
next
  assume h: "readAtI secs (i + direction) = Inr sn \<and> scatteringVelocityPress la direction si sn = Inr (F', G')"
  from assms(2) show "junctionVelocityPress la p freq secs i direction =
          (if sideQuantity i (i + direction) si > sideQuantity (i + direction) i sn
           then (if direction = - 1
                 then pressContractionBack la si sn F'
                 else pressContractionFwd la si sn F')
           else (if direction = - 1
                 then veloExpansionBack la p (wallInterfaceAdmit p freq) si sn F' G'
                 else veloExpansionFwd la p (wallInterfaceAdmit p freq) si sn F' G'))"
  proof
    assume "direction = 1"
    then show ?thesis
      using assms(1,3) h by (simp add: junctionVelocityPress_def bindE_def sideQuantity_def Let_def)
  next
    assume "direction = - 1"
    then show ?thesis
      using assms(1,3) h by (simp add: junctionVelocityPress_def bindE_def sideQuantity_def Let_def)
  qed
qed

text \<open>
  In the \<open>STRAIGHT_TUBES\<close> method the same steps compare the areas alone: the scale
  factors do not enter.
\<close>

lemma junctionImpedAdmit_straight:
  assumes "propMethod p = STRAIGHT_TUBES"
    and "readAtI secs i = Inr si" and "readAtI secs (i - direction) = Inr sp"
    and "scatteringImpedAdmit la direction si sp = Inr (F, G)"
  shows "junctionImpedAdmit la p freq secs i direction =
          (if area si > area sp
           then straightContraction la si sp (if direction = - 1 then Yin sp else Yout sp) F
           else straightExpansion la si sp (if direction = - 1 then Zin sp else Zout sp) F)"
  using assms by (simp add: junctionImpedAdmit_def bindE_def Let_def)

text \<open>
  C1 does not hold as stated: the comparison of \<open>area * scale\<^sup>2\<close> is not made at every
  junction update. Section 1
  has area 1 and exit scale 2, section 2 has area 3 and entry scale 1: \<open>area * scale\<^sup>2\<close> is
  4 against 3, a contraction. With \<open>STRAIGHT_TUBES\<close> the step back from section 2 to
  section 1 compares 1 with 3 and takes the impedance update of an expansion.
\<close>

theorem junction_classifier_counterexample:
  "sideQuantity 1 2 (oneModeSection 1 1 2 2) > sideQuantity 2 1 (oneModeSection 3 1 1 3)
   \<and> junctionImpedAdmit scalarOps straightParams 100
        [oneModeSection 2 1 1 1, oneModeSection 1 1 2 2, oneModeSection 3 1 1 3] 1 (- 1)
      = straightExpansion scalarOps (oneModeSection 1 1 2 2) (oneModeSection 3 1 1 3)
          (Zin (oneModeSection 3 1 1 3)) 1
   \<and> junctionImpedAdmit scalarOps straightParams 100
        [oneModeSection 2 1 1 1, oneModeSection 1 1 2 2, oneModeSection 3 1 1 3] 1 (- 1)
      \<noteq> straightContraction scalarOps (oneModeSection 1 1 2 2) (oneModeSection 3 1 1 3)
          (Yin (oneModeSection 3 1 1 3)) 1"
  by (simp add: sideQuantity_def oneModeSection_def scaleIn_def scaleOut_def
      junctionImpedAdmit_def straightParams_def airParams_def readAtI_def bindE_def Let_def
      scatteringImpedAdmit_def scalarOps_def readAt_def straightExpansion_def
      straightContraction_def Zin_def Yin_def backE_def areaRatio_def)

theorem junction_classifier_witness:
  "junctionImpedAdmit scalarOps airParams 100
     [oneModeSection 2 1 1 1, oneModeSection 1 1 2 2, oneModeSection 3 1 1 3] 1 (- 1) = Inr (0, 12)
   \<and> junctionVelocityPress scalarOps airParams 100
     [oneModeSection 2 1 1 1, oneModeSection 1 1 2 2, oneModeSection 3 1 1 3] 1 (- 1) = Inr (2, 2)"
proof -
  let ?secs = "[oneModeSection 2 1 1 1, oneModeSection 1 1 2 2, oneModeSection 3 1 1 3]"
  have m: "propMethod airParams = MAGNUS" by (simp add: airParams_def)
  have d: "(- 1 :: int) = 1 \<or> (- 1 :: int) = - 1" by simp
  have s1: "readAtI ?secs 1 = Inr (oneModeSection 1 1 2 2)" by (simp add: readAtI_def)
  have s2: "readAtI ?secs (1 - (- 1)) = Inr (oneModeSection 3 1 1 3)" by (simp add: readAtI_def)
  have s0: "readAtI ?secs (1 + (- 1)) = Inr (oneModeSection 2 1 1 1)" by (simp add: readAtI_def)
  have g: "scatteringImpedAdmit scalarOps (- 1) (oneModeSection 1 1 2 2) (oneModeSection 3 1 1 3) = Inr (1, 0)"
    by (simp add: scatteringImpedAdmit_def scalarOps_def oneModeSection_def bindE_def readAt_def)
  have g': "scatteringVelocityPress scalarOps (- 1) (oneModeSection 1 1 2 2) (oneModeSection 2 1 1 1) = Inr (1, 0)"
    by (simp add: scatteringVelocityPress_def scalarOps_def oneModeSection_def bindE_def readAt_def)
  note t = junction_classifier [OF m d s1, of "oneModeSection 3 1 1 3" scalarOps 1 0 100
      "oneModeSection 2 1 1 1" 1 0]
  have a: "admitContractionBack scalarOps airParams (wallInterfaceAdmit airParams 100)
             (oneModeSection 1 1 2 2) (oneModeSection 3 1 1 3) 1 0 = Inr (0, 12)"
    by (simp add: admitContractionBack_def scalarOps_def oneModeSection_def bindE_def Yin_def
        backE_def scaleIn_def scaleOut_def airParams_def)
  have v: "veloExpansionBack scalarOps airParams (wallInterfaceAdmit airParams 100)
             (oneModeSection 1 1 2 2) (oneModeSection 2 1 1 1) 1 0 = Inr (2, 2)"
    by (simp add: veloExpansionBack_def scalarOps_def oneModeSection_def bindE_def Qin_def Zout_def
        readAt_def scaleIn_def scaleOut_def airParams_def)
  have q: "sideQuantity 1 (1 - (- 1)) (oneModeSection 1 1 2 2) = 4"
      "sideQuantity (1 - (- 1)) 1 (oneModeSection 3 1 1 3) = 3"
      "sideQuantity 1 (1 + (- 1)) (oneModeSection 1 1 2 2) = 1"
      "sideQuantity (1 + (- 1)) 1 (oneModeSection 2 1 1 1) = 2"
    by (simp_all add: sideQuantity_def oneModeSection_def scaleIn_def scaleOut_def)
  from t s2 s0 g g' a v q show ?thesis by simp
qed

section \<open>Properties of the source\<close>

text \<open>
  C2 does not hold as stated: the first entry of the input velocity carries the cube of
  the entry scale factor, not its square. For entry scale 2 the two differ by a factor 2.
\<close>

theorem solveWaveProblem_source_counterexample:
  "solveWaveProblem_source airParams 1 glottisSection
     \<noteq> Inr (specInputVelocity airParams 1 glottisSection,
            matVec [[1]] (specInputVelocity airParams 1 glottisSection))"
  by (simp add: solveWaveProblem_source_def specInputVelocity_def glottisSection_def airParams_def
      scaleIn_def Zin_def backE_def bindE_def Let_def complex_eq_iff)

text \<open>
  C2, amended. In the single-frequency wave solve the injected velocity vector has its
  first-mode entry equal to \<open>- i 2 pi f rho scale_in\<^sup>3 area\<close> of the first section and all
  other entries zero, and the input pressure is \<open>Z_in\<close> times that vector.
\<close>

theorem solveWaveProblem_source_cube:
  assumes "0 < numberOfModes s0" and "Zin s0 = Inr Z"
  shows "\<exists>Q. solveWaveProblem_source p freq s0 = Inr (Q, matVec Z Q)
           \<and> length Q = numberOfModes s0
           \<and> Q ! 0 = - \<i> * 2 * of_real pi * of_real freq * of_real (volumicMass p)
                       * of_real ((scaleIn s0) ^ 3) * of_real (area s0)
           \<and> (\<forall>k. 0 < k \<and> k < numberOfModes s0 \<longrightarrow> Q ! k = 0)"
  using assms
  by (simp add: solveWaveProblem_source_def bindE_def Let_def)

theorem solveWaveProblem_source_cube_witness:
  "solveWaveProblem_source airParams 1 glottisSection =
     Inr ([- \<i> * 2 * of_real pi * (114 / 100000) * 8], [- \<i> * 2 * of_real pi * (114 / 100000) * 8])"
proof -
  have n: "0 < numberOfModes glottisSection" by (simp add: glottisSection_def)
  have z: "Zin glottisSection = Inr [[1]]" by (simp add: glottisSection_def Zin_def backE_def)
  from solveWaveProblem_source_cube [OF n z, of airParams 1]
  obtain Q where q: "solveWaveProblem_source airParams 1 glottisSection = Inr (Q, matVec [[1]] Q)"
    and l: "length Q = numberOfModes glottisSection"
    and v: "Q ! 0 = - \<i> * 2 * of_real pi * of_real 1 * of_real (volumicMass airParams)
                       * of_real ((scaleIn glottisSection) ^ 3) * of_real (area glottisSection)"
    by blast
  from l have "length Q = 1" by (simp add: glottisSection_def)
  then obtain a where a: "Q = [a]" by (cases Q) simp_all
  with v have "a = - \<i> * 2 * of_real pi * (114 / 100000) * 8"
    by (simp add: glottisSection_def airParams_def scaleIn_def)
  with q a show ?thesis by (simp add: matVec_def)
qed

section \<open>Properties of the radiation spline\<close>

lemma fold_addRadMat:
  "fold (addRadMatToInterpolate SR radImped radAdmit N mn) [0 ..< n] initCoefInterpRadiationMatrices =
     \<lparr> m_radiationFreqs = map (radiationFreq SR N) [0 ..< n],
       m_radiationMatrixInterp = (\<lambda>k m n'.
          if m < mn \<and> n' < mn \<and> k < 4
          then map (\<lambda>i. sampleKind radImped radAdmit k (radiationFreq SR N i) m n') [0 ..< n]
          else []) \<rparr>"
proof (induction n)
  case 0
  show ?case by (simp add: initCoefInterpRadiationMatrices_def fun_eq_iff)
next
  case (Suc n)
  show ?case
    unfolding upt_Suc_append [OF le0] fold_append comp_def Suc.IH
    by (simp add: addRadMatToInterpolate_def Let_def sampleKind_def fun_eq_iff)
qed

lemma radiationFreq_strict:
  assumes "500 < SR / 2 / (real_of_int (int N - 1))" and "i < j"
  shows "radiationFreq SR N i < radiationFreq SR N j"
proof -
  define s where "s = SR / 2 / (real_of_int (int N - 1))"
  have s: "500 < s" using assms(1) by (simp add: s_def)
  have f: "\<And>n. radiationFreq SR N n = max 500 (real n * s)"
    by (simp add: radiationFreq_def s_def)
  have j: "1 \<le> real j" using assms(2) by simp
  have "1 * s \<le> real j * s" using j s by (intro mult_right_mono) simp_all
  then have big: "500 < real j * s" using s by linarith
  show ?thesis
  proof (cases "i = 0")
    case True
    then show ?thesis using big unfolding f by simp
  next
    case False
    have "real i * s < real j * s" using assms(2) s by simp
    then show ?thesis using big unfolding f by linarith
  qed
qed

lemma findInterval_sample:
  assumes "\<forall>i j. i < j \<and> j < length freqs \<longrightarrow> freqs ! i < freqs ! j"
    and "k < length freqs" and "idx < length freqs"
  shows "findInterval freqs (freqs ! k) idx = Inr (min k idx)"
  using assms(3)
proof (induction idx)
  case 0
  then show ?case by (simp add: readAt_def)
next
  case (Suc idx)
  show ?case
  proof (cases "k \<le> idx")
    case True
    then have "freqs ! k < freqs ! Suc idx" using assms(1) Suc.prems by simp
    then show ?thesis using Suc True by (simp add: readAt_def min_def)
  next
    case False
    then have "k = Suc idx \<or> Suc idx < k" by auto
    then have "\<not> freqs ! k < freqs ! Suc idx"
      using assms(1,2) by (auto simp: not_less intro: less_imp_le)
    then show ?thesis using Suc.prems False by (simp add: readAt_def min_def)
  qed
qed

lemma cubic_step:
  fixes a0 a1 c0 c1 h :: real
  assumes "h \<noteq> 0"
  shows "a0 + ((a1 - a0) / h - h * (c1 + 2 * c0) / 3) * h + c0 * h ^ 2 + ((c1 - c0) / 3 / h) * h ^ 3 = a1"
  using assms by (simp add: field_simps power2_eq_square power3_eq_cube)

lemma bindE_Inr: "bindE (Inr x) f = f x"
  by (simp add: bindE_def)

lemma collectE_Inr: "collectE (map (\<lambda>x. Inr (g x)) xs) = Inr (map g xs)"
  by (induction xs) simp_all

lemma splineEntry_fresh:
  assumes "4 \<le> N" and "length freqs = N" and "length a = N"
    and "\<forall>A R. length (solve A R) = length R"
  shows "\<exists>bs cs ds. splineEntry solve N freqs (a, [], [], []) = Inr (bs, cs, ds)
           \<and> length bs = N - 1 \<and> length cs = N \<and> length ds = N - 1
           \<and> (\<forall>f < N - 1.
                 bs ! f = (a ! (f + 1) - a ! f) / (freqs ! (f + 1) - freqs ! f)
                          - (freqs ! (f + 1) - freqs ! f) * (cs ! (f + 1) + 2 * cs ! f) / 3
               \<and> ds ! f = (cs ! (f + 1) - cs ! f) / 3 / (freqs ! (f + 1) - freqs ! f))"
proof -
  let ?steps = "stepRadFreqs freqs N"
  let ?B = "solve (splineA ?steps N) (splineR ?steps a N)"
  have lB: "length ?B = N - 2"
    using assms(4) by (simp add: splineR_def)
  then have lc: "length ([0] @ ?B @ [0]) = N"
    using assms(1) by simp
  have st: "\<And>f. f < N - 1 \<Longrightarrow> ?steps ! f = freqs ! (f + 1) - freqs ! f"
    by (simp add: stepRadFreqs_def)
  show ?thesis
    using assms(1,2,3) lc st
    by (simp add: splineEntry_def Let_def)
qed

lemma cubicAt_sample:
  assumes "4 \<le> N" and "length freqs = N" and "length a = N"
    and "\<forall>i j. i < j \<and> j < length freqs \<longrightarrow> freqs ! i < freqs ! j"
    and "length bs = N - 1" and "length cs = N" and "length ds = N - 1"
    and "\<forall>f < N - 1.
           bs ! f = (a ! (f + 1) - a ! f) / (freqs ! (f + 1) - freqs ! f)
                    - (freqs ! (f + 1) - freqs ! f) * (cs ! (f + 1) + 2 * cs ! f) / 3
         \<and> ds ! f = (cs ! (f + 1) - cs ! f) / 3 / (freqs ! (f + 1) - freqs ! f)"
    and "T k0 m n = a" and "T (k0 + 4) m n = bs" and "T (k0 + 8) m n = cs" and "T (k0 + 12) m n = ds"
    and "k < N"
  shows "cubicAt T k0 m n (min k (N - 2)) (freqs ! k - freqs ! (min k (N - 2))) = Inr (a ! k)"
proof (cases "k \<le> N - 2")
  case True
  then have "min k (N - 2) = k" by simp
  then show ?thesis
    using assms True by (simp add: cubicAt_def bindE_def readAt_def)
next
  case False
  with assms(13) have k: "k = N - 1" by simp
  let ?f = "N - 2"
  have f: "?f < N - 1" "?f + 1 = k" "min k ?f = ?f" using assms(1) k by simp_all
  have h: "freqs ! k - freqs ! ?f \<noteq> 0"
    using assms(1,2,4) k by (simp add: less_imp_neq [symmetric])
  have b: "bs ! ?f = (a ! k - a ! ?f) / (freqs ! k - freqs ! ?f)
                    - (freqs ! k - freqs ! ?f) * (cs ! k + 2 * cs ! ?f) / 3"
    and d: "ds ! ?f = (cs ! k - cs ! ?f) / 3 / (freqs ! k - freqs ! ?f)"
    using assms(8) f by auto
  have "a ! ?f + bs ! ?f * (freqs ! k - freqs ! ?f) + cs ! ?f * (freqs ! k - freqs ! ?f) ^ 2
          + ds ! ?f * (freqs ! k - freqs ! ?f) ^ 3 = a ! k"
    unfolding b d using cubic_step [OF h] .
  then show ?thesis
    using assms f by (simp add: cubicAt_def bindE_def readAt_def)
qed

text \<open>
  C4. After the precomputation with \<open>N \<ge> 4\<close> sample frequencies (the simulator uses 16),
  spaced by more than 500 Hz, the spline interpolant of the radiation impedance evaluated
  at a sample frequency returns, entry by entry, the impedance matrix computed directly
  at that frequency. The arithmetic is exact, so the two are equal and in particular
  within \<open>1e-12\<close>; the equality does not depend on the values the solver returns for the
  coefficients \<open>c\<close>, only on their number.
\<close>

theorem radiation_spline_at_samples:
  assumes "4 \<le> N" and "500 < SR / 2 / (real_of_int (int N - 1))"
    and "\<forall>A R. length (solve A R) = length R" and "0 < mn" and "k < N"
  shows "\<exists>st. preComputeRadiationMatrices solve SR radImped radAdmit N mn = Inr st
           \<and> m_radiationFreqs st ! k = radiationFreq SR N k
           \<and> interpolateRadiationImpedance mn st (radiationFreq SR N k) =
               Inr (map (\<lambda>m. map (\<lambda>n. radImped (radiationFreq SR N k) m n) [0 ..< mn]) [0 ..< mn])"
proof -
  define freqs where "freqs = map (radiationFreq SR N) [0 ..< N]"
  define a where "a = (\<lambda>k m n. map (\<lambda>i. sampleKind radImped radAdmit k (radiationFreq SR N i) m n) [0 ..< N])"
  define T0 :: interpTable where "T0 = (\<lambda>k m n. if m < mn \<and> n < mn \<and> k < 4 then a k m n else [])"
  define st0 where "st0 = \<lparr> m_radiationFreqs = freqs, m_radiationMatrixInterp = T0 \<rparr>"
  have fold: "fold (addRadMatToInterpolate SR radImped radAdmit N mn) [0 ..< N]
                initCoefInterpRadiationMatrices = st0"
    unfolding fold_addRadMat st0_def freqs_def T0_def a_def ..
  have lf: "length freqs = N" by (simp add: freqs_def)
  have la: "\<And>k m n. length (a k m n) = N" by (simp add: a_def)
  have inc: "\<forall>i j. i < j \<and> j < length freqs \<longrightarrow> freqs ! i < freqs ! j"
    using radiationFreq_strict [OF assms(2)] by (simp add: freqs_def)
  have fk: "freqs ! k = radiationFreq SR N k" using assms(5) by (simp add: freqs_def)
  define cell where "cell = (\<lambda>m i j. splineEntry solve N freqs (a m i j, [], [], []))"
  have cellT0: "\<And>m i j. m < 4 \<Longrightarrow> i < mn \<Longrightarrow> j < mn \<Longrightarrow>
      splineEntry solve N freqs (cellOf T0 m i j) = cell m i j"
    by (simp add: cellOf_def T0_def cell_def)
  have fresh: "\<And>m i j. \<exists>bs cs ds. cell m i j = Inr (bs, cs, ds)
           \<and> length bs = N - 1 \<and> length cs = N \<and> length ds = N - 1
           \<and> (\<forall>f < N - 1.
                 bs ! f = (a m i j ! (f + 1) - a m i j ! f) / (freqs ! (f + 1) - freqs ! f)
                          - (freqs ! (f + 1) - freqs ! f) * (cs ! (f + 1) + 2 * cs ! f) / 3
               \<and> ds ! f = (cs ! (f + 1) - cs ! f) / 3 / (freqs ! (f + 1) - freqs ! f))"
    unfolding cell_def using splineEntry_fresh [OF assms(1) lf la assms(3)] by blast
  define T :: interpTable where "T = (\<lambda>k i j.
                if i < mn \<and> j < mn \<and> 4 \<le> k \<and> k < 16
                then (case splineEntry solve N freqs (cellOf T0 (k mod 4) i j) of
                        Inr (b, c, d) \<Rightarrow> (if k < 8 then b else if k < 12 then c else d)
                      | Inl e \<Rightarrow> T0 k i j)
                else T0 k i j)"
  define st where "st = st0 \<lparr> m_radiationMatrixInterp := T \<rparr>"
  have nobad: "\<not> (\<exists>m \<in> {0 ..< 4}. \<exists>i \<in> {0 ..< mn}. \<exists>j \<in> {0 ..< mn}.
                    splineEntry solve N freqs (cellOf T0 m i j) = Inl OutOfRange)"
  proof (intro notI, elim bexE)
    fix m i j
    assume "m \<in> {0 ..< 4}" "i \<in> {0 ..< mn}" "j \<in> {0 ..< mn}"
      and bad: "splineEntry solve N freqs (cellOf T0 m i j) = Inl OutOfRange"
    then have "cell m i j = Inl OutOfRange" using cellT0 by simp
    with fresh [of m i j] show False by auto
  qed
  have pre: "preComputeRadiationMatrices solve SR radImped radAdmit N mn = Inr st"
    unfolding preComputeRadiationMatrices_def fold
    using nobad assms(1) lf
    by (simp add: computeInterpCoefRadMat_def Let_def st0_def st_def T_def)
  have stf: "m_radiationFreqs st = freqs" and stT: "m_radiationMatrixInterp st = T"
    by (simp_all add: st_def st0_def)
  have Ta: "\<And>k0 m n. k0 < 4 \<Longrightarrow> m < mn \<Longrightarrow> n < mn \<Longrightarrow> T k0 m n = a k0 m n"
    by (simp add: T_def T0_def)
  have entry: "cubicAt T k0 m n (min k (N - 2)) (freqs ! k - freqs ! (min k (N - 2)))
                 = Inr (a k0 m n ! k)"
    if "k0 < 4" "m < mn" "n < mn" for k0 m n
  proof -
    from fresh [of k0 m n] obtain bs cs ds where c: "cell k0 m n = Inr (bs, cs, ds)"
      and l: "length bs = N - 1" "length cs = N" "length ds = N - 1"
      and e: "\<forall>f < N - 1.
                 bs ! f = (a k0 m n ! (f + 1) - a k0 m n ! f) / (freqs ! (f + 1) - freqs ! f)
                          - (freqs ! (f + 1) - freqs ! f) * (cs ! (f + 1) + 2 * cs ! f) / 3
               \<and> ds ! f = (cs ! (f + 1) - cs ! f) / 3 / (freqs ! (f + 1) - freqs ! f)"
      by blast
    have c': "splineEntry solve N freqs (cellOf T0 k0 m n) = Inr (bs, cs, ds)"
      using cellT0 that c by simp
    have m4: "(k0 + 4) mod 4 = k0" "(k0 + 8) mod 4 = k0" "(k0 + 12) mod 4 = k0"
      using that(1) by presburger+
    have tb: "T (k0 + 4) m n = bs" and tc: "T (k0 + 8) m n = cs" and td: "T (k0 + 12) m n = ds"
      using that c' m4 by (simp_all add: T_def)
    show ?thesis
      using assms(1) lf la [of k0 m n] inc l e Ta [OF that] tb tc td assms(5)
      by (rule cubicAt_sample [where a = "a k0 m n" and bs = bs and cs = cs and ds = ds])
  qed
  have ak: "\<And>k0 m n. a k0 m n ! k = sampleKind radImped radAdmit k0 (radiationFreq SR N k) m n"
    using assms(5) by (simp add: a_def)
  have n0: "length (T 0 0 0) = N" using Ta [of 0 0 0] assms(4) la by simp
  have find: "findInterval freqs (freqs ! k) (N - 2) = Inr (min k (N - 2))"
    using inc assms(1,5) lf by (intro findInterval_sample) simp_all
  have rows: "map (\<lambda>m. collectE (map (\<lambda>n.
                  bindE (cubicAt T 0 m n (min k (N - 2)) (freqs ! k - freqs ! (min k (N - 2)))) (\<lambda>re.
                  bindE (cubicAt T 1 m n (min k (N - 2)) (freqs ! k - freqs ! (min k (N - 2)))) (\<lambda>im.
                    Inr (Complex re im)))) [0 ..< mn])) [0 ..< mn]
             = map (\<lambda>m. Inr (map (\<lambda>n. radImped (radiationFreq SR N k) m n) [0 ..< mn])) [0 ..< mn]"
  proof (rule map_cong [OF refl])
    fix m assume "m \<in> set [0 ..< mn]"
    then have m: "m < mn" by simp
    have inner: "map (\<lambda>n.
              bindE (cubicAt T 0 m n (min k (N - 2)) (freqs ! k - freqs ! (min k (N - 2)))) (\<lambda>re.
              bindE (cubicAt T 1 m n (min k (N - 2)) (freqs ! k - freqs ! (min k (N - 2)))) (\<lambda>im.
                Inr (Complex re im)))) [0 ..< mn]
          = map (\<lambda>n. Inr (radImped (radiationFreq SR N k) m n)) [0 ..< mn]"
    proof (rule map_cong [OF refl])
      fix n assume "n \<in> set [0 ..< mn]"
      then have n: "n < mn" by simp
      show "bindE (cubicAt T 0 m n (min k (N - 2)) (freqs ! k - freqs ! (min k (N - 2)))) (\<lambda>re.
              bindE (cubicAt T 1 m n (min k (N - 2)) (freqs ! k - freqs ! (min k (N - 2)))) (\<lambda>im.
                Inr (Complex re im)))
            = Inr (radImped (radiationFreq SR N k) m n)"
        using entry [of 0 m n] entry [of 1 m n] m n
        by (simp add: bindE_def ak sampleKind_def)
    qed
    show "collectE (map (\<lambda>n.
                  bindE (cubicAt T 0 m n (min k (N - 2)) (freqs ! k - freqs ! (min k (N - 2)))) (\<lambda>re.
                  bindE (cubicAt T 1 m n (min k (N - 2)) (freqs ! k - freqs ! (min k (N - 2)))) (\<lambda>im.
                    Inr (Complex re im)))) [0 ..< mn])
               = Inr (map (\<lambda>n. radImped (radiationFreq SR N k) m n) [0 ..< mn])"
      unfolding inner by (rule collectE_Inr)
  qed
  have "interpolateRadiationImpedance mn st (freqs ! k) =
               Inr (map (\<lambda>m. map (\<lambda>n. radImped (radiationFreq SR N k) m n) [0 ..< mn]) [0 ..< mn])"
    unfolding interpolateRadiationImpedance_def Let_def stf stT n0 find bindE_Inr rows collectE_Inr
    using assms(1,4) by simp
  with pre stf fk show ?thesis by auto
qed

theorem radiation_spline_at_samples_witness:
  "\<exists>st. preComputeRadiationMatrices (\<lambda>A R. R) 44100 rampImped unitAdmit 16 1 = Inr st
     \<and> m_radiationFreqs st ! 15 = 22050
     \<and> interpolateRadiationImpedance 1 st 22050 = Inr [[Complex 22050 1]]"
  using radiation_spline_at_samples [of 16 44100 "\<lambda>A R. R" 1 15 rampImped unitAdmit]
  by (simp add: radiationFreq_def rampImped_def)

section \<open>Properties of the profile pass\<close>

lemma fold_markInvalid:
  assumes "b \<le> length up" and "length lo = length up"
  shows "fold (markInvalid v) [a ..< b] (up, lo) =
     (map (\<lambda>i. if a \<le> i \<and> i < b then v else up ! i) [0 ..< length up],
      map (\<lambda>i. if a \<le> i \<and> i < b then v else lo ! i) [0 ..< length lo])"
  using assms(1)
proof (induction b)
  case 0
  show ?case by (auto intro!: nth_equalityI)
next
  case (Suc b)
  show ?case
  proof (cases "a \<le> b")
    case False
    then show ?thesis by (auto intro!: nth_equalityI)
  next
    case True
    then have u: "[a ..< Suc b] = [a ..< b] @ [b]" by simp
    have ih: "fold (markInvalid v) [a ..< b] (up, lo) =
       (map (\<lambda>i. if a \<le> i \<and> i < b then v else up ! i) [0 ..< length up],
        map (\<lambda>i. if a \<le> i \<and> i < b then v else lo ! i) [0 ..< length lo])"
      using Suc by simp
    show ?thesis
      unfolding u fold_append comp_def ih
      using Suc.prems assms(2) True
      by (auto simp: markInvalid_def nth_list_update intro!: nth_equalityI)
  qed
qed

lemma fold_addSpacing:
  assumes "b \<le> length up" and "length lo = length up"
  shows "fold addSpacing [a ..< b] (up, lo) =
     (map (\<lambda>i. if a \<le> i \<and> i < b \<and> dless (dabs (sub64 (up ! i) (lo ! i))) MINIMAL_DISTANCE
                then add64 (up ! i) HALF_MINIMAL_DISTANCE else up ! i) [0 ..< length up],
      map (\<lambda>i. if a \<le> i \<and> i < b \<and> dless (dabs (sub64 (up ! i) (lo ! i))) MINIMAL_DISTANCE
                then sub64 (lo ! i) HALF_MINIMAL_DISTANCE else lo ! i) [0 ..< length lo])"
  using assms(1)
proof (induction b)
  case 0
  show ?case by (auto intro!: nth_equalityI)
next
  case (Suc b)
  show ?case
  proof (cases "a \<le> b")
    case False
    then show ?thesis by (auto intro!: nth_equalityI)
  next
    case True
    then have u: "[a ..< Suc b] = [a ..< b] @ [b]" by simp
    have ih: "fold addSpacing [a ..< b] (up, lo) =
     (map (\<lambda>i. if a \<le> i \<and> i < b \<and> dless (dabs (sub64 (up ! i) (lo ! i))) MINIMAL_DISTANCE
                then add64 (up ! i) HALF_MINIMAL_DISTANCE else up ! i) [0 ..< length up],
      map (\<lambda>i. if a \<le> i \<and> i < b \<and> dless (dabs (sub64 (up ! i) (lo ! i))) MINIMAL_DISTANCE
                then sub64 (lo ! i) HALF_MINIMAL_DISTANCE else lo ! i) [0 ..< length lo])"
      using Suc by simp
    show ?thesis
      unfolding u fold_append comp_def ih
      using Suc.prems assms(2) True
      by (auto simp: addSpacing_def nth_list_update less_Suc_eq intro!: nth_equalityI)
  qed
qed

lemma detectStep_bounds:
  assumes "\<forall>x. idxStart s = Some x \<longrightarrow> x < b" and "\<forall>x. idxStop s = Some x \<longrightarrow> x < b"
  shows "(\<forall>x. idxStart (detectStep up lo b s) = Some x \<longrightarrow> x < Suc b)
       \<and> (\<forall>x. idxStop (detectStep up lo b s) = Some x \<longrightarrow> x < Suc b)"
  using assms by (auto simp: detectStep_def Let_def less_Suc_eq)

lemma detect_bounds:
  "(\<forall>s. idxStart (fold (detectStep up lo) [1 ..< b]
            \<lparr> idxStart = None, idxStop = None, firstSample = True \<rparr>) = Some s \<longrightarrow> s < b)
   \<and> (\<forall>e. idxStop (fold (detectStep up lo) [1 ..< b]
            \<lparr> idxStart = None, idxStop = None, firstSample = True \<rparr>) = Some e \<longrightarrow> e < b)"
proof (induction b)
  case 0
  show ?case by simp
next
  case (Suc b)
  show ?case
  proof (cases "1 \<le> b")
    case False
    then show ?thesis by simp
  next
    case True
    then have u: "[1 ..< Suc b] = [1 ..< b] @ [b]" by simp
    define st where "st = fold (detectStep up lo) [1 ..< b]
            \<lparr> idxStart = None, idxStop = None, firstSample = True \<rparr>"
    have "(\<forall>x. idxStart st = Some x \<longrightarrow> x < b)" and "(\<forall>x. idxStop st = Some x \<longrightarrow> x < b)"
      using Suc by (simp_all add: st_def)
    then have "(\<forall>x. idxStart (detectStep up lo b st) = Some x \<longrightarrow> x < Suc b)
       \<and> (\<forall>x. idxStop (detectStep up lo b st) = Some x \<longrightarrow> x < Suc b)"
      by (rule detectStep_bounds)
    then show ?thesis
      unfolding u fold_append comp_def st_def [symmetric] by simp
  qed
qed

lemma detectContour_bounds:
  assumes "idxStart (detectContour up lo) = Some start" and "idxStop (detectContour up lo) = Some stop"
  shows "start < length up - 1" and "stop < length up - 1"
  using assms detect_bounds [of up lo "length up - 1"]
  by (simp_all add: detectContour_def)

lemma profiles_result:
  assumes "length lo = length up"
    and "idxStart (detectContour up lo) = Some start" and "idxStop (detectContour up lo) = Some stop"
  shows "\<exists>up' lo'. createUniqueContour_profiles v up lo = Inr (up', lo')
           \<and> length up' = length up \<and> length lo' = length up
           \<and> (\<forall>i. start < i \<and> i < stop \<longrightarrow>
                 up' ! i = (if dless (dabs (sub64 (up ! i) (lo ! i))) MINIMAL_DISTANCE
                            then add64 (up ! i) HALF_MINIMAL_DISTANCE else up ! i)
               \<and> lo' ! i = (if dless (dabs (sub64 (up ! i) (lo ! i))) MINIMAL_DISTANCE
                            then sub64 (lo ! i) HALF_MINIMAL_DISTANCE else lo ! i))"
proof -
  have True: "start \<le> length up" and st: "stop < length up"
    using detectContour_bounds [OF assms(2,3)] by simp_all
  let ?n = "length up"
  let ?u1 = "map (\<lambda>i. if 0 \<le> i \<and> i < start then v else up ! i) [0 ..< ?n]"
  let ?l1 = "map (\<lambda>i. if 0 \<le> i \<and> i < start then v else lo ! i) [0 ..< length lo]"
  let ?u2 = "map (\<lambda>i. if stop + 1 \<le> i \<and> i < ?n - 1 then v else ?u1 ! i) [0 ..< length ?u1]"
  let ?l2 = "map (\<lambda>i. if stop + 1 \<le> i \<and> i < ?n - 1 then v else ?l1 ! i) [0 ..< length ?l1]"
  let ?u3 = "map (\<lambda>i. if start + 1 \<le> i \<and> i < stop \<and> dless (dabs (sub64 (?u2 ! i) (?l2 ! i))) MINIMAL_DISTANCE
                then add64 (?u2 ! i) HALF_MINIMAL_DISTANCE else ?u2 ! i) [0 ..< length ?u2]"
  let ?l3 = "map (\<lambda>i. if start + 1 \<le> i \<and> i < stop \<and> dless (dabs (sub64 (?u2 ! i) (?l2 ! i))) MINIMAL_DISTANCE
                then sub64 (?l2 ! i) HALF_MINIMAL_DISTANCE else ?l2 ! i) [0 ..< length ?l2]"
  have f1: "fold (markInvalid v) [0 ..< start] (up, lo) = (?u1, ?l1)"
    using True assms(1) by (rule fold_markInvalid)
  have f2: "fold (markInvalid v) [stop + 1 ..< ?n - 1] (?u1, ?l1) = (?u2, ?l2)"
    using assms(1) by (intro fold_markInvalid) simp_all
  have f3: "fold addSpacing [start + 1 ..< stop] (?u2, ?l2) = (?u3, ?l3)"
    using assms(1) st by (intro fold_addSpacing) simp_all
  have r: "createUniqueContour_profiles v up lo = Inr (?u3, ?l3)"
    unfolding createUniqueContour_profiles_def Let_def assms(2,3) option.case f1
    using f2 f3 by simp
  have g: "?u3 ! i = (if dless (dabs (sub64 (up ! i) (lo ! i))) MINIMAL_DISTANCE
                            then add64 (up ! i) HALF_MINIMAL_DISTANCE else up ! i)
         \<and> ?l3 ! i = (if dless (dabs (sub64 (up ! i) (lo ! i))) MINIMAL_DISTANCE
                            then sub64 (lo ! i) HALF_MINIMAL_DISTANCE else lo ! i)"
    if "start < i" "i < stop" for i
    using that assms(1) st by simp
  from r g assms(1) show ?thesis by auto
qed

text \<open>The two constants, and the rounding errors of the last loop on one sample.\<close>

lemma HALF_MINIMAL_DISTANCE_value: "HALF_MINIMAL_DISTANCE = Dbl (3602879701896397 / 2 ^ 57)"
  unfolding HALF_MINIMAL_DISTANCE_def
  by (subst round64_eval [where e = "- 6", OF _ _ _ refl refl])
     (simp_all add: roundHalfEven_def DBL_MAX_def Let_def pow2_def)

lemma MINIMAL_DISTANCE_value: "MINIMAL_DISTANCE = Dbl (3602879701896397 / 2 ^ 56)"
  unfolding MINIMAL_DISTANCE_def
  by (subst round64_eval [where e = "- 5", OF _ _ _ refl refl])
     (simp_all add: roundHalfEven_def DBL_MAX_def Let_def pow2_def)

lemma moved_apart:
  fixes u l u' l' h eta :: real
  assumes h: "h = 3602879701896397 / 2 ^ 57" and eta: "eta = 1 / 2 ^ 1075"
    and eu: "\<bar>u' - (u + h)\<bar> \<le> (\<bar>u\<bar> + h) / 2 ^ 53 + eta"
    and el: "\<bar>l' - (l - h)\<bar> \<le> (\<bar>l\<bar> + h) / 2 ^ 53 + eta"
    and "l \<le> u"
  shows "1 / 20 - (\<bar>u\<bar> + \<bar>l\<bar> + 1 / 20) / 2 ^ 53 \<le> u' - l'"
proof -
  have c: "1 / 20 - (1 / 20) / 2 ^ 53 \<le> 2 * h - 2 * h / 2 ^ 53 - 2 * eta"
    unfolding h eta by simp
  have 1: "u + h - ((\<bar>u\<bar> + h) / 2 ^ 53 + eta) \<le> u'" using eu by linarith
  have 2: "l' \<le> l - h + ((\<bar>l\<bar> + h) / 2 ^ 53 + eta)" using el by linarith
  have 3: "(\<bar>u\<bar> + h) / 2 ^ 53 = \<bar>u\<bar> / 2 ^ 53 + h / 2 ^ 53"
     "(\<bar>l\<bar> + h) / 2 ^ 53 = \<bar>l\<bar> / 2 ^ 53 + h / 2 ^ 53"
     "(\<bar>u\<bar> + \<bar>l\<bar> + 1 / 20) / 2 ^ 53 = \<bar>u\<bar> / 2 ^ 53 + \<bar>l\<bar> / 2 ^ 53 + (1 / 20) / 2 ^ 53"
     "2 * h / 2 ^ 53 = h / 2 ^ 53 + h / 2 ^ 53"
    by (simp_all add: add_divide_distrib)
  show ?thesis using 1 2 c assms(5) unfolding 3 by linarith
qed

lemma left_apart:
  fixes u l d h eta :: real
  assumes h: "h = 3602879701896397 / 2 ^ 57" and eta: "eta = 1 / 2 ^ 1075"
    and ed: "\<bar>d - (u - l)\<bar> \<le> (u - l) / 2 ^ 53 + eta"
    and "l \<le> u" and "\<not> \<bar>d\<bar> < 2 * h"
  shows "1 / 20 - (\<bar>u\<bar> + \<bar>l\<bar> + 1 / 20) / 2 ^ 53 \<le> u - l"
proof -
  define g where "g = u - l"
  have g: "0 \<le> g" using assms(4) by (simp add: g_def)
  have 1: "d \<le> g + g / 2 ^ 53 + eta" "g - g / 2 ^ 53 - eta \<le> d"
    using ed unfolding g_def [symmetric] by linarith+
  have e: "0 < eta" "eta < 2 * h" unfolding h eta by simp_all
  have "g / 2 ^ 53 \<le> g" using g by (simp add: field_simps)
  with 1 e have "- (2 * h) < d" by linarith
  with assms(5) have "2 * h \<le> d" by linarith
  with 1 have 2: "2 * h - eta \<le> g + g / 2 ^ 53" by linarith
  have c: "(1 / 20 - (1 / 20) / 2 ^ 53) + (1 / 20 - (1 / 20) / 2 ^ 53) / 2 ^ 53 < 2 * h - eta"
    unfolding h eta by simp
  have "1 / 20 - (1 / 20) / 2 ^ 53 \<le> g"
  proof (rule ccontr)
    assume "\<not> 1 / 20 - (1 / 20) / 2 ^ 53 \<le> g"
    then have a: "g < 1 / 20 - (1 / 20) / 2 ^ 53" by simp
    then have "g / 2 ^ 53 < (1 / 20 - (1 / 20) / 2 ^ 53) / 2 ^ 53"
      by (simp add: divide_strict_right_mono)
    with a 2 c show False by linarith
  qed
  moreover have "(\<bar>u\<bar> + \<bar>l\<bar> + 1 / 20) / 2 ^ 53 \<ge> (1 / 20) / 2 ^ 53"
    by (intro divide_right_mono) simp_all
  ultimately show ?thesis unfolding g_def by linarith
qed

lemma far_apart:
  fixes g d :: real
  assumes "0 \<le> g" and "\<bar>d - g\<bar> \<le> g / 2 ^ 53 + 1 / 2 ^ 1075" and "1 < \<bar>d\<bar>"
  shows "1 / 20 \<le> g"
proof -
  have "g / 2 ^ 53 \<le> g" using assms(1) by (simp add: field_simps)
  with assms show ?thesis by (simp add: abs_le_iff) linarith
qed

lemma spacing_gap:
  assumes "l \<le> u" and "\<bar>u\<bar> \<le> DBL_MAX" and "\<bar>l\<bar> \<le> DBL_MAX"
  shows "if dless (dabs (sub64 (Dbl u) (Dbl l))) MINIMAL_DISTANCE
         then \<exists>u' l'. add64 (Dbl u) HALF_MINIMAL_DISTANCE = Dbl u'
                \<and> sub64 (Dbl l) HALF_MINIMAL_DISTANCE = Dbl l'
                \<and> 1 / 20 - (\<bar>u\<bar> + \<bar>l\<bar> + 1 / 20) / 2 ^ 53 \<le> u' - l'
         else 1 / 20 - (\<bar>u\<bar> + \<bar>l\<bar> + 1 / 20) / 2 ^ 53 \<le> u - l"
proof -
  define h :: real where "h = 3602879701896397 / 2 ^ 57"
  define eta :: real where "eta = 1 / 2 ^ 1075"
  have hv: "HALF_MINIMAL_DISTANCE = Dbl h" "MINIMAL_DISTANCE = Dbl (2 * h)"
    by (simp_all add: h_def HALF_MINIMAL_DISTANCE_value MINIMAL_DISTANCE_value)
  have eta: "pow2 (- 1075) = eta" by (simp add: pow2_def eta_def)
  have tol: "0 \<le> (\<bar>u\<bar> + \<bar>l\<bar> + 1 / 20) / 2 ^ 53" by simp
  define d where "d = roundToUlp (u - l)"
  have ed: "\<bar>d - (u - l)\<bar> \<le> (u - l) / 2 ^ 53 + eta"
    using roundToUlp_close [of "u - l"] assms(1) by (simp add: d_def eta)
  show ?thesis
  proof (cases "u - l \<noteq> 0 \<and> DBL_MAX < \<bar>d\<bar>")
    case True
    then have "sub64 (Dbl u) (Dbl l) = PosInf"
      using assms(1) by (simp add: sub64_def dsub_def fl_def round64_def d_def dinf_def)
    then have t: "\<not> dless (dabs (sub64 (Dbl u) (Dbl l))) MINIMAL_DISTANCE"
      by (simp add: hv)
    have "1 < \<bar>d\<bar>" using True by (simp add: DBL_MAX_def)
    with assms(1) ed have "1 / 20 \<le> u - l"
      unfolding eta_def by (intro far_apart [of "u - l" d]) simp_all
    then have "1 / 20 - (\<bar>u\<bar> + \<bar>l\<bar> + 1 / 20) / 2 ^ 53 \<le> u - l"
      using tol by linarith
    with t show ?thesis by simp
  next
    case inrange: False
    then have sd: "sub64 (Dbl u) (Dbl l) = Dbl d"
      by (auto simp: sub64_def dsub_def fl_def round64_def d_def roundToUlp_def roundHalfEven_def)
    show ?thesis
    proof (cases "\<bar>d\<bar> < 2 * h")
      case True
      define u' where "u' = roundToUlp (u + h)"
      define l' where "l' = roundToUlp (l - h)"
      have hb: "0 \<le> h" "h \<le> 1 / 2" by (simp_all add: h_def)
      have "\<bar>u + h\<bar> \<le> DBL_MAX + 1 / 2" "\<bar>l - h\<bar> \<le> DBL_MAX + 1 / 2"
        using assms hb by linarith+
      then have su: "add64 (Dbl u) HALF_MINIMAL_DISTANCE = Dbl u'"
        and sl: "sub64 (Dbl l) HALF_MINIMAL_DISTANCE = Dbl l'"
        by (simp_all add: hv add64_def sub64_def dsub_def fl_def round64_in_range u'_def l'_def)
      have eu: "\<bar>u' - (u + h)\<bar> \<le> (\<bar>u\<bar> + h) / 2 ^ 53 + eta"
      proof -
        have "\<bar>u' - (u + h)\<bar> \<le> \<bar>u + h\<bar> / 2 ^ 53 + eta"
          using roundToUlp_close [of "u + h"] by (simp add: u'_def eta)
        also have "\<dots> \<le> (\<bar>u\<bar> + h) / 2 ^ 53 + eta"
          using hb by (intro add_right_mono divide_right_mono) simp_all
        finally show ?thesis .
      qed
      have el: "\<bar>l' - (l - h)\<bar> \<le> (\<bar>l\<bar> + h) / 2 ^ 53 + eta"
      proof -
        have "\<bar>l' - (l - h)\<bar> \<le> \<bar>l - h\<bar> / 2 ^ 53 + eta"
          using roundToUlp_close [of "l - h"] by (simp add: l'_def eta)
        also have "\<dots> \<le> (\<bar>l\<bar> + h) / 2 ^ 53 + eta"
          using hb by (intro add_right_mono divide_right_mono) simp_all
        finally show ?thesis .
      qed
      have "1 / 20 - (\<bar>u\<bar> + \<bar>l\<bar> + 1 / 20) / 2 ^ 53 \<le> u' - l'"
        using h_def eta_def eu el assms(1) by (rule moved_apart)
      with True su sl sd show ?thesis by (auto simp: hv)
    next
      case False
      have "1 / 20 - (\<bar>u\<bar> + \<bar>l\<bar> + 1 / 20) / 2 ^ 53 \<le> u - l"
        using h_def eta_def ed assms(1) False by (rule left_apart)
      with False sd show ?thesis by (simp add: hv)
    qed
  qed
qed

text \<open>The pass on the two example profiles: the start is sample 1, the stop sample 5.\<close>

lemma detect_example:
  "idxStart (detectContour upperExample lowerExample) = Some 1
   \<and> idxStop (detectContour upperExample lowerExample) = Some 5"
  by (simp add: detectContour_def upperExample_def lowerExample_def detectStep_def upt_rec)

lemma one_plus_half: "add64 (Dbl 1) HALF_MINIMAL_DISTANCE = Dbl (4616189618054758 / 2 ^ 52)"
  unfolding HALF_MINIMAL_DISTANCE_value add64_def fl_def dadd.simps double.case
  by (subst round64_eval [where e = "0", OF _ _ _ refl refl])
     (simp_all add: roundHalfEven_def DBL_MAX_def Let_def pow2_def)

lemma one_minus_half: "sub64 (Dbl 1) HALF_MINIMAL_DISTANCE = Dbl (8782019273372467 / 2 ^ 53)"
  unfolding HALF_MINIMAL_DISTANCE_value sub64_def fl_def dsub_def dneg.simps dadd.simps double.case
  by (subst round64_eval [where e = "- 1", OF _ _ _ refl refl])
     (simp_all add: roundHalfEven_def DBL_MAX_def Let_def pow2_def)

lemma moved_difference:
  "sub64 (Dbl (4616189618054758 / 2 ^ 52)) (Dbl (8782019273372467 / 2 ^ 53))
     = Dbl (450359962737049 / 2 ^ 53)"
  unfolding sub64_def fl_def dsub_def dneg.simps dadd.simps double.case
  by (subst round64_eval [where e = "- 5", OF _ _ _ refl refl])
     (simp_all add: roundHalfEven_def DBL_MAX_def Let_def pow2_def)

lemma small_differences:
  "sub64 (Dbl 1) (Dbl 0) = Dbl 1" "sub64 (Dbl 1) (Dbl 1) = Dbl 0" "sub64 (Dbl 0) (Dbl 1) = Dbl (- 1)"
  by (simp_all add: sub64_def fl_def dsub_def round64_zero round64_one round64_minus_one)

lemma example_profiles:
  "createUniqueContour_profiles (Dbl 1000000) upperExample lowerExample =
     Inr ([Dbl 1000000, Dbl 0, Dbl 1, Dbl (4616189618054758 / 2 ^ 52), Dbl 0, Dbl 0, Dbl 1000000, Dbl 0],
          [Dbl 1000000, Dbl 0, Dbl 0, Dbl (8782019273372467 / 2 ^ 53), Dbl 1, Dbl 0, Dbl 1000000, Dbl 0])"
  using detect_example
  by (simp add: createUniqueContour_profiles_def upperExample_def lowerExample_def markInvalid_def
      addSpacing_def upt_rec small_differences one_plus_half one_minus_half MINIMAL_DISTANCE_value)

text \<open>
  C5 does not hold as stated. At sample 3 the two profiles are identical, both 1: the
  pass stores the doubles nearest to 1.025 and 0.975, and their difference, which is
  exact, is 0.04999999999999993, below 0.05 and below the double \<^verbatim>\<open>MINIMAL_DISTANCE\<close>. At
  sample 4 the upper profile is 1 below the lower one: the test on the absolute value
  leaves the sample as it is.
\<close>

theorem createUniqueContour_gap_counterexample:
  "createUniqueContour_profiles (Dbl 1000000) upperExample lowerExample =
     Inr ([Dbl 1000000, Dbl 0, Dbl 1, Dbl (4616189618054758 / 2 ^ 52), Dbl 0, Dbl 0, Dbl 1000000, Dbl 0],
          [Dbl 1000000, Dbl 0, Dbl 0, Dbl (8782019273372467 / 2 ^ 53), Dbl 1, Dbl 0, Dbl 1000000, Dbl 0])
   \<and> \<not> dle MINIMAL_DISTANCE (sub64 (Dbl (4616189618054758 / 2 ^ 52)) (Dbl (8782019273372467 / 2 ^ 53)))
   \<and> 4616189618054758 / 2 ^ 52 - 8782019273372467 / 2 ^ 53 < (5 / 100 :: real)
   \<and> \<not> dle MINIMAL_DISTANCE (sub64 (Dbl 0) (Dbl 1))"
proof -
  have a: "\<not> dle MINIMAL_DISTANCE (sub64 (Dbl (4616189618054758 / 2 ^ 52)) (Dbl (8782019273372467 / 2 ^ 53)))"
    unfolding moved_difference MINIMAL_DISTANCE_value by simp
  have b: "4616189618054758 / 2 ^ 52 - 8782019273372467 / 2 ^ 53 < (5 / 100 :: real)"
    by simp
  have c: "\<not> dle MINIMAL_DISTANCE (sub64 (Dbl 0) (Dbl 1))"
    unfolding small_differences MINIMAL_DISTANCE_value by simp
  from example_profiles a b c show ?thesis by (intro conjI)
qed

text \<open>
  C5, amended. When the first loop has found the start and the stop of the contour, the
  pass returns, and every interior sample between them whose upper value \<open>u\<close> was not below
  its lower value \<open>l\<close> on entry (two finite numbers, so at most \<open>DBL_MAX\<close> in magnitude) ends with
  \<open>upper - lower \<ge> 0.05 - (|u| + |l| + 0.05) / 2\<^sup>5\<^sup>3\<close>: the minimum gap of 0.05 is
  enforced up to the rounding of the two additions, where the upper profile is not below
  the lower profile.
\<close>

theorem createUniqueContour_gap:
  assumes "length lo = length up"
    and "idxStart (detectContour up lo) = Some start" and "idxStop (detectContour up lo) = Some stop"
  shows "\<exists>up' lo'. createUniqueContour_profiles v up lo = Inr (up', lo')
           \<and> (\<forall>i u l. start < i \<and> i < stop \<and> up ! i = Dbl u \<and> lo ! i = Dbl l
                   \<and> l \<le> u \<and> \<bar>u\<bar> \<le> DBL_MAX \<and> \<bar>l\<bar> \<le> DBL_MAX \<longrightarrow>
                 (\<exists>u' l'. up' ! i = Dbl u' \<and> lo' ! i = Dbl l'
                    \<and> 1 / 20 - (\<bar>u\<bar> + \<bar>l\<bar> + 1 / 20) / 2 ^ 53 \<le> u' - l'))"
proof -
  from profiles_result [OF assms, of v]
  obtain up' lo' where r: "createUniqueContour_profiles v up lo = Inr (up', lo')"
    and g: "\<forall>i. start < i \<and> i < stop \<longrightarrow>
                 up' ! i = (if dless (dabs (sub64 (up ! i) (lo ! i))) MINIMAL_DISTANCE
                            then add64 (up ! i) HALF_MINIMAL_DISTANCE else up ! i)
               \<and> lo' ! i = (if dless (dabs (sub64 (up ! i) (lo ! i))) MINIMAL_DISTANCE
                            then sub64 (lo ! i) HALF_MINIMAL_DISTANCE else lo ! i)"
    by blast
  have "\<exists>u' l'. up' ! i = Dbl u' \<and> lo' ! i = Dbl l'
          \<and> 1 / 20 - (\<bar>u\<bar> + \<bar>l\<bar> + 1 / 20) / 2 ^ 53 \<le> u' - l'"
    if h: "start < i \<and> i < stop \<and> up ! i = Dbl u \<and> lo ! i = Dbl l
             \<and> l \<le> u \<and> \<bar>u\<bar> \<le> DBL_MAX \<and> \<bar>l\<bar> \<le> DBL_MAX" for i u l
  proof -
    from h have b: "l \<le> u" "\<bar>u\<bar> \<le> DBL_MAX" "\<bar>l\<bar> \<le> DBL_MAX" by simp_all
    from g h have e: "up' ! i = (if dless (dabs (sub64 (Dbl u) (Dbl l))) MINIMAL_DISTANCE
                            then add64 (Dbl u) HALF_MINIMAL_DISTANCE else Dbl u)"
      "lo' ! i = (if dless (dabs (sub64 (Dbl u) (Dbl l))) MINIMAL_DISTANCE
                            then sub64 (Dbl l) HALF_MINIMAL_DISTANCE else Dbl l)"
      by simp_all
    show ?thesis
    proof (cases "dless (dabs (sub64 (Dbl u) (Dbl l))) MINIMAL_DISTANCE")
      case True
      with spacing_gap [OF b] e show ?thesis by simp
    next
      case False
      with spacing_gap [OF b] e show ?thesis by simp
    qed
  qed
  with r show ?thesis by blast
qed

theorem createUniqueContour_gap_witness:
  "\<exists>up' lo' u' l'. createUniqueContour_profiles (Dbl 1000000) upperExample lowerExample = Inr (up', lo')
     \<and> up' ! 3 = Dbl u' \<and> lo' ! 3 = Dbl l' \<and> 1 / 20 - (1 + 1 + 1 / 20) / 2 ^ 53 \<le> u' - l'"
proof -
  have l: "length lowerExample = length upperExample"
    by (simp add: upperExample_def lowerExample_def)
  have s: "idxStart (detectContour upperExample lowerExample) = Some 1"
    and e: "idxStop (detectContour upperExample lowerExample) = Some 5"
    using detect_example by simp_all
  from createUniqueContour_gap [OF l s e, of "Dbl 1000000"]
  obtain up' lo' where r: "createUniqueContour_profiles (Dbl 1000000) upperExample lowerExample = Inr (up', lo')"
    and g: "\<forall>i u l. 1 < i \<and> i < 5 \<and> upperExample ! i = Dbl u \<and> lowerExample ! i = Dbl l
                   \<and> l \<le> u \<and> \<bar>u\<bar> \<le> DBL_MAX \<and> \<bar>l\<bar> \<le> DBL_MAX \<longrightarrow>
                 (\<exists>u' l'. up' ! i = Dbl u' \<and> lo' ! i = Dbl l'
                    \<and> 1 / 20 - (\<bar>u\<bar> + \<bar>l\<bar> + 1 / 20) / 2 ^ 53 \<le> u' - l')"
    by blast
  have "(1::nat) < 3 \<and> (3::nat) < 5 \<and> upperExample ! 3 = Dbl 1 \<and> lowerExample ! 3 = Dbl 1
          \<and> (1::real) \<le> 1 \<and> \<bar>1::real\<bar> \<le> DBL_MAX \<and> \<bar>1::real\<bar> \<le> DBL_MAX"
    by (simp add: upperExample_def lowerExample_def DBL_MAX_def)
  with g have "\<exists>u' l'. up' ! 3 = Dbl u' \<and> lo' ! 3 = Dbl l'
                    \<and> 1 / 20 - (\<bar>1::real\<bar> + \<bar>1::real\<bar> + 1 / 20) / 2 ^ 53 \<le> u' - l'"
    by blast
  with r show ?thesis by auto
qed

section \<open>Properties of the radiation section\<close>

lemma bbox_order:
  assumes "c \<noteq> []"
  shows "xmin (polygonBbox c) \<le> xmax (polygonBbox c)" and "ymin (polygonBbox c) \<le> ymax (polygonBbox c)"
proof -
  have "fst (hd c) \<in> set (map fst c)" "snd (hd c) \<in> set (map snd c)" using assms by simp_all
  then have "Min (set (map fst c)) \<le> fst (hd c)" "fst (hd c) \<le> Max (set (map fst c))"
     "Min (set (map snd c)) \<le> snd (hd c)" "snd (hd c) \<le> Max (set (map snd c))"
    by (simp_all del: set_map)
  then show "xmin (polygonBbox c) \<le> xmax (polygonBbox c)" and "ymin (polygonBbox c) \<le> ymax (polygonBbox c)"
    by (simp_all add: polygonBbox_def)
qed

lemma radiusStep_maxAbs:
  assumes "c \<noteq> []"
  shows "radiusStep c r = max r (maxAbsCoordinate c)"
  using bbox_order [OF assms]
  by (simp add: radiusStep_def maxAbsCoordinate_def max_def abs_if)

lemma fold_radiusStep:
  assumes "\<forall>c\<in>set cs. c \<noteq> []"
  shows "fold radiusStep cs r = Max (insert r (maxAbsCoordinate ` set cs))"
  using assms
proof (induction cs arbitrary: r)
  case Nil
  show ?case by simp
next
  case (Cons c cs)
  have "fold radiusStep (c # cs) r = fold radiusStep cs (max r (maxAbsCoordinate c))"
    using Cons.prems by (simp add: radiusStep_maxAbs)
  also have "\<dots> = Max (insert (max r (maxAbsCoordinate c)) (maxAbsCoordinate ` set cs))"
    using Cons by simp
  also have "\<dots> = Max (insert r (maxAbsCoordinate ` set (c # cs)))"
  proof (cases "cs = []")
    case True
    then show ?thesis by simp
  next
    case False
    then have "maxAbsCoordinate ` set cs \<noteq> {}" by simp
    then show ?thesis by (simp add: max.assoc)
  qed
  finally show ?case .
qed

lemma vertex_within:
  assumes "(x, y) \<in> set c"
  shows "\<bar>x\<bar> \<le> maxAbsCoordinate c" and "\<bar>y\<bar> \<le> maxAbsCoordinate c"
proof -
  have x: "x \<in> set (map fst c)" and y: "y \<in> set (map snd c)"
    using assms by force+
  have "Min (set (map fst c)) \<le> x" "x \<le> Max (set (map fst c))"
    using x by (simp_all del: set_map)
  then have "\<bar>x\<bar> \<le> \<bar>xmin (polygonBbox c)\<bar> \<or> \<bar>x\<bar> \<le> \<bar>xmax (polygonBbox c)\<bar>"
    unfolding polygonBbox_def bbox.simps by linarith
  then show "\<bar>x\<bar> \<le> maxAbsCoordinate c"
    by (auto simp: maxAbsCoordinate_def le_max_iff_disj)
  have "Min (set (map snd c)) \<le> y" "y \<le> Max (set (map snd c))"
    using y by (simp_all del: set_map)
  then have "\<bar>y\<bar> \<le> \<bar>ymin (polygonBbox c)\<bar> \<or> \<bar>y\<bar> \<le> \<bar>ymax (polygonBbox c)\<bar>"
    unfolding polygonBbox_def bbox.simps by linarith
  then show "\<bar>y\<bar> \<le> maxAbsCoordinate c"
    by (auto simp: maxAbsCoordinate_def le_max_iff_disj)
qed

lemma maxAbsCoordinate_nonneg: "0 \<le> maxAbsCoordinate c"
proof -
  have "\<bar>xmin (polygonBbox c)\<bar> \<le> maxAbsCoordinate c"
    by (simp add: maxAbsCoordinate_def)
  then show ?thesis by linarith
qed

text \<open>
  C7. When \<open>createCrossSections\<close> appends the radiation section to a last slice that has
  at least one contour, the radius of the radiation section is 2.1 times \<open>r_max\<close> and its
  PML thickness is \<open>r_max\<close>, where \<open>r_max\<close> is the maximum over the contours of the last
  slice of the largest absolute bounding-box coordinate; every vertex of these contours
  lies in the disk of that radius around the origin.
\<close>

theorem radiation_section_radius:
  assumes "cs \<noteq> []" and "\<forall>c\<in>set cs. c \<noteq> []"
  shows "createLastSections cs True = map BuiltFEM cs @ [BuiltRadiation (21 / 10 * rMax cs) (rMax cs)]
         \<and> (\<forall>c\<in>set cs. \<forall>(x, y)\<in>set c. x\<^sup>2 + y\<^sup>2 \<le> (21 / 10 * rMax cs)\<^sup>2)"
proof -
  have ne: "maxAbsCoordinate ` set cs \<noteq> {}" using assms(1) by simp
  have "fold radiusStep cs 0 = Max (insert 0 (maxAbsCoordinate ` set cs))"
    using assms(2) by (rule fold_radiusStep)
  also have "\<dots> = max 0 (rMax cs)"
    using ne by (simp add: rMax_def)
  also have "\<dots> = rMax cs"
  proof -
    obtain c where c: "c \<in> set cs" using assms(1) by (cases cs) auto
    have "maxAbsCoordinate c \<le> rMax cs" using c by (simp add: rMax_def)
    then have "0 \<le> rMax cs" using maxAbsCoordinate_nonneg [of c] by linarith
    then show ?thesis by simp
  qed
  finally have r: "fold radiusStep cs 0 = rMax cs" .
  have inside: "x\<^sup>2 + y\<^sup>2 \<le> (21 / 10 * rMax cs)\<^sup>2" if "c \<in> set cs" "(x, y) \<in> set c" for c x y
  proof -
    have m: "maxAbsCoordinate c \<le> rMax cs" using that(1) by (simp add: rMax_def)
    have "\<bar>x\<bar> \<le> rMax cs" "\<bar>y\<bar> \<le> rMax cs"
      using vertex_within [OF that(2)] m by linarith+
    then have "x\<^sup>2 \<le> (rMax cs)\<^sup>2" "y\<^sup>2 \<le> (rMax cs)\<^sup>2"
      by (simp_all add: abs_le_square_iff [symmetric] abs_of_nonneg)
    then have "x\<^sup>2 + y\<^sup>2 \<le> 2 * (rMax cs)\<^sup>2" by linarith
    also have "\<dots> \<le> (21 / 10 * rMax cs)\<^sup>2"
      by (simp add: power_mult_distrib power2_eq_square)
    finally show ?thesis .
  qed
  show ?thesis
    using r inside by (auto simp: createLastSections_def Let_def)
qed

theorem radiation_section_radius_witness:
  "createLastSections lastSlice True = map BuiltFEM lastSlice @ [BuiltRadiation (63 / 10) 3]"
proof -
  have n: "lastSlice \<noteq> []" and v: "\<forall>c\<in>set lastSlice. c \<noteq> []"
    by (simp_all add: lastSlice_def)
  have "rMax lastSlice = 3"
    by (simp add: rMax_def lastSlice_def maxAbsCoordinate_def polygonBbox_def)
  with radiation_section_radius [OF n v] show ?thesis by simp
qed

section \<open>Properties of the interpolation of a transfer function\<close>

lemma dpow10_range:
  "dpow10 d = NaN \<or> dpow10 d = PosInf \<or> (\<exists>x. dpow10 d = Dbl x \<and> 0 \<le> x)"
  by (cases d) simp_all

text \<open>
  Whenever the function returns, the imaginary part is zero and the real part is NaN,
  infinite or nonnegative, or both parts are NaN: only the magnitude of the stored
  coefficients is read.
\<close>

lemma interpolateTransferFunction_returned:
  assumes "interpolateTransferFunction SR st freq idxPt type = Inr z"
  shows "z = (NaN, NaN)
       \<or> snd z = Dbl 0 \<and> (fst z = NaN \<or> fst z = PosInf \<or> (\<exists>x. fst z = Dbl x \<and> 0 \<le> x))"
proof -
  define M where "M = (case type of GLOTTAL \<Rightarrow> m_glottalSourceTF st
                        | NOISE \<Rightarrow> m_noiseSourceTF st
                        | INPUT_IMPED \<Rightarrow> m_planeModeInputImpedance st)"
  have p: "snd z = Dbl 0 \<and> (fst z = NaN \<or> fst z = PosInf \<or> (\<exists>x. fst z = Dbl x \<and> 0 \<le> x))"
    if "z = (dpow10 d, Dbl 0)" for d
    using that dpow10_range [of d] by auto
  show ?thesis
  proof (cases "0 < rows M \<and> 0 < length (m_tfFreqs st)
                \<and> dle (hd (m_tfFreqs st)) freq \<and> dle freq (last (m_tfFreqs st))")
    case False
    with assms have "z = (NaN, NaN)"
      unfolding interpolateTransferFunction_def Let_def M_def [symmetric]
      by (auto split: if_splits)
    then show ?thesis by simp
  next
    case True
    with assms have "\<exists>d. z = (dpow10 d, Dbl 0)"
      unfolding interpolateTransferFunction_def Let_def M_def [symmetric] bindE_def
      by (simp split: sum.splits if_splits) blast+
    with p show ?thesis by blast
  qed
qed

lemma interpolateTransferFunction_in_range:
  "interpolateTransferFunction 44100 sweptState (Dbl (1 / 10)) 0 GLOTTAL = Inr (Dbl 5, Dbl 0)"
  by (simp add: interpolateTransferFunction_def sweptState_def onePointTf_def Let_def
        toInt_def coeffAt_def bindE_def dsub_def)

text \<open>
  C10. After a sweep for one reception point the stored transfer functions have one column,
  the column 0. The point index is clamped to the number of columns and not to the last
  column, so for the point index 1 and a frequency of the sweep the function reads the
  column 1 of a matrix that has none: it returns neither NaN nor a number.
\<close>

theorem interpolateTransferFunction_point_out_of_range:
  "interpolateTransferFunction 44100 sweptState (Dbl 5) 1 GLOTTAL = Inl OutOfRange"
  by (simp add: interpolateTransferFunction_def sweptState_def onePointTf_def Let_def
        toInt_def coeffAt_def bindE_def)

section \<open>Properties of the import of a CSV geometry\<close>

text \<open>
  The invariant of the loop over the pairs of lines: the slices read so far are appended to
  \<open>parsed\<close>, and as long as the import has not been abandoned each of them has at least
  three points and has been stored, in order, after \<open>finishContour\<close>.
\<close>

lemma readSlices_inv:
  "readSlices stod nv eq smp sc ls vars out parsed = Inr (abort, out', parsed') \<Longrightarrow>
   \<exists>new. parsed' = parsed @ new
     \<and> (\<not> abort \<longrightarrow> (\<forall>pts\<in>set new. 3 \<le> length pts)
           \<and> contours out' = contours out @ map (\<lambda>pts. [finishContour eq smp sc pts]) new)"
proof (induction stod nv eq smp sc ls vars out parsed rule: readSlices.induct)
  case (1 stod nv eq smp sc vars out parsed)
  then show ?case by simp
next
  case (2 stod nv eq smp sc lineX vars out parsed)
  then show ?case by simp
next
  case (3 stod nv eq smp sc lineX lineY rest vars out parsed)
  show ?case
  proof (cases "parseSlice stod nv lineX lineY vars")
    case (Inl e)
    with "3.prems" show ?thesis by simp
  next
    case (Inr r)
    obtain vars' res where r: "r = (vars', res)" by (cases r)
    show ?thesis
    proof (cases res)
      case None
      with "3.prems" Inr r show ?thesis by simp
    next
      case (Some pts)
      show ?thesis
      proof (cases "length pts < 3")
        case True
        with "3.prems" Inr r Some show ?thesis by auto
      next
        case False
        from "3.prems" Inr r Some False
        have "readSlices stod nv eq smp sc rest vars' (storeSlice eq smp sc vars' pts out) (parsed @ [pts])
                = Inr (abort, out', parsed')" by simp
        from "3.IH" [OF Inr r [symmetric] Some False this]
        obtain new where n: "parsed' = (parsed @ [pts]) @ new"
          and i: "\<not> abort \<longrightarrow> (\<forall>p\<in>set new. 3 \<le> length p)
             \<and> contours out' = contours (storeSlice eq smp sc vars' pts out)
                  @ map (\<lambda>pts. [finishContour eq smp sc pts]) new"
          by blast
        have "parsed' = parsed @ (pts # new)" using n by simp
        moreover have "\<not> abort \<longrightarrow> (\<forall>p\<in>set (pts # new). 3 \<le> length p)
             \<and> contours out' = contours out @ map (\<lambda>pts. [finishContour eq smp sc pts]) (pts # new)"
          using i False by (simp add: storeSlice_def Let_def)
        ultimately show ?thesis by blast
      qed
    qed
  qed
qed

text \<open>
  The loop returns for every file whose fields \<^verbatim>\<open>stod\<close> can convert or rejects as not a
  number; a field out of the range of a double leaves the function by an exception.
\<close>

lemma strToDouble_returns:
  "stod str \<noteq> StodRange \<Longrightarrow> \<exists>v a. strToDouble stod str cur abort = Inr (v, a)"
  by (cases "stod str") (simp_all add: strToDouble_def)

lemma readField_returns:
  assumes "\<forall>t\<in>set tx. stod t \<noteq> StodRange" and "\<forall>t\<in>set ty. stod t \<noteq> StodRange"
  shows "readField stod tx ty cur abort = Inr None
       \<or> (\<exists>v a tx' ty'. readField stod tx ty cur abort = Inr (Some (v, a, tx', ty'))
             \<and> set tx' \<subseteq> set tx \<and> set ty' \<subseteq> set ty)"
proof (cases tx)
  case Nil
  then show ?thesis by (simp add: readField_def)
next
  case (Cons cx tx')
  show ?thesis
  proof (cases ty)
    case Nil
    with Cons show ?thesis by (simp add: readField_def)
  next
    case c2: (Cons cy ty')
    from assms Cons c2 have "stod cx \<noteq> StodRange" "stod cy \<noteq> StodRange" by simp_all
    then obtain vx a1 vy a2 where
      "strToDouble stod cx (fst cur) abort = Inr (vx, a1)"
      "strToDouble stod cy (snd cur) a1 = Inr (vy, a2)"
      using strToDouble_returns by metis
    with Cons c2 show ?thesis by (auto simp: readField_def bindE_def)
  qed
qed

lemma contourLoop_returns:
  assumes "\<forall>t\<in>set tx. stod t \<noteq> StodRange" and "\<forall>t\<in>set ty. stod t \<noteq> StodRange"
  shows "\<exists>r. contourLoop stod tx ty vars abort pts = Inr r"
  using assms
proof (induction tx arbitrary: ty vars abort pts)
  case Nil
  show ?case by simp
next
  case (Cons cx tx)
  show ?case
  proof (cases "cx = [] \<or> ty = []")
    case True
    then show ?thesis by (cases ty) auto
  next
    case False
    then obtain cy ty' where ty: "ty = cy # ty'" by (cases ty) auto
    from Cons.prems ty have "stod cx \<noteq> StodRange" "stod cy \<noteq> StodRange" by simp_all
    then obtain vx a1 vy a2 where s:
      "strToDouble stod cx (coordValX vars) abort = Inr (vx, a1)"
      "strToDouble stod cy (coordValY vars) a1 = Inr (vy, a2)"
      using strToDouble_returns by metis
    have "\<exists>r. contourLoop stod tx ty' (vars \<lparr> coordValX := vx, coordValY := vy \<rparr>) a2 (pts @ [(vx, vy)]) = Inr r"
      using Cons.prems ty by (intro Cons.IH) simp_all
    with False ty s show ?thesis by (auto simp: bindE_def Let_def)
  qed
qed

lemma parseSlice_returns:
  assumes "\<forall>t\<in>set (split lx). stod t \<noteq> StodRange" and "\<forall>t\<in>set (split ly). stod t \<noteq> StodRange"
  shows "\<exists>r. parseSlice stod nv lx ly vars = Inr r"
proof -
  have sc: "\<exists>r. parseScalings stod tx ty a v = Inr r"
    if "\<forall>t\<in>set tx. stod t \<noteq> StodRange" "\<forall>t\<in>set ty. stod t \<noteq> StodRange" for tx ty a v
  proof -
    from readField_returns [OF that, of "scalings v" a]
    show ?thesis
    proof
      assume "readField stod tx ty (scalings v) a = Inr None"
      then show ?thesis by (simp add: parseScalings_def bindE_def)
    next
      assume "\<exists>s a' tx' ty'. readField stod tx ty (scalings v) a = Inr (Some (s, a', tx', ty'))
             \<and> set tx' \<subseteq> set tx \<and> set ty' \<subseteq> set ty"
      then obtain s a' tx' ty' where r: "readField stod tx ty (scalings v) a = Inr (Some (s, a', tx', ty'))"
        and sub: "set tx' \<subseteq> set tx" "set ty' \<subseteq> set ty" by blast
      have "\<forall>t\<in>set tx'. stod t \<noteq> StodRange" "\<forall>t\<in>set ty'. stod t \<noteq> StodRange"
        using that sub by blast+
      from contourLoop_returns [OF this, of "v \<lparr> scalings := s \<rparr>" a' "[]"]
      obtain q where "contourLoop stod tx' ty' (v \<lparr> scalings := s \<rparr>) a' [] = Inr q" by blast
      with r show ?thesis by (cases q) (auto simp: parseScalings_def bindE_def)
    qed
  qed
  have nm: "\<exists>r. parseNormal stod nv tx ty a v = Inr r"
    if "\<forall>t\<in>set tx. stod t \<noteq> StodRange" "\<forall>t\<in>set ty. stod t \<noteq> StodRange" for tx ty a v
  proof -
    from readField_returns [OF that, of "normalVec v" a]
    show ?thesis
    proof
      assume "readField stod tx ty (normalVec v) a = Inr None"
      then show ?thesis by (simp add: parseNormal_def bindE_def)
    next
      assume "\<exists>s a' tx' ty'. readField stod tx ty (normalVec v) a = Inr (Some (s, a', tx', ty'))
             \<and> set tx' \<subseteq> set tx \<and> set ty' \<subseteq> set ty"
      then obtain s a' tx' ty' where r: "readField stod tx ty (normalVec v) a = Inr (Some (s, a', tx', ty'))"
        and sub: "set tx' \<subseteq> set tx" "set ty' \<subseteq> set ty" by blast
      have "\<forall>t\<in>set tx'. stod t \<noteq> StodRange" "\<forall>t\<in>set ty'. stod t \<noteq> StodRange"
        using that sub by blast+
      from sc [OF this] r show ?thesis by (simp add: parseNormal_def bindE_def)
    qed
  qed
  from readField_returns [OF assms, of "ctlPt vars" False]
  show ?thesis
  proof
    assume "readField stod (split lx) (split ly) (ctlPt vars) False = Inr None"
    then show ?thesis by (simp add: parseSlice_def bindE_def)
  next
    assume "\<exists>s a' tx' ty'. readField stod (split lx) (split ly) (ctlPt vars) False = Inr (Some (s, a', tx', ty'))
             \<and> set tx' \<subseteq> set (split lx) \<and> set ty' \<subseteq> set (split ly)"
    then obtain s a' tx' ty' where r: "readField stod (split lx) (split ly) (ctlPt vars) False = Inr (Some (s, a', tx', ty'))"
        and sub: "set tx' \<subseteq> set (split lx)" "set ty' \<subseteq> set (split ly)" by blast
    have "\<forall>t\<in>set tx'. stod t \<noteq> StodRange" "\<forall>t\<in>set ty'. stod t \<noteq> StodRange"
      using assms sub by blast+
    from nm [OF this] r show ?thesis by (simp add: parseSlice_def bindE_def)
  qed
qed

lemma readSlices_returns:
  "\<forall>l\<in>set ls. \<forall>t\<in>set (split l). stod t \<noteq> StodRange \<Longrightarrow>
   \<exists>r. readSlices stod nv eq smp sc ls vars out parsed = Inr r"
proof (induction stod nv eq smp sc ls vars out parsed rule: readSlices.induct)
  case (1 stod nv eq smp sc vars out parsed)
  show ?case by (simp del: ex_simps) blast
next
  case (2 stod nv eq smp sc lineX vars out parsed)
  show ?case by (simp del: ex_simps) blast
next
  case (3 stod nv eq smp sc lineX lineY rest vars out parsed)
  from "3.prems" have "\<forall>t\<in>set (split lineX). stod t \<noteq> StodRange"
    "\<forall>t\<in>set (split lineY). stod t \<noteq> StodRange" by simp_all
  from parseSlice_returns [OF this, of nv vars]
  obtain r where p: "parseSlice stod nv lineX lineY vars = Inr r" by blast
  obtain vars' res where r: "r = (vars', res)" by (cases r)
  show ?case
  proof (cases res)
    case None
    with p r show ?thesis by (simp del: ex_simps) blast
  next
    case (Some pts)
    show ?thesis
    proof (cases "length pts < 3")
      case True
      with p r Some show ?thesis by (simp del: ex_simps) blast
    next
      case False
      have "\<exists>r. readSlices stod nv eq smp sc rest vars' (storeSlice eq smp sc vars' pts out) (parsed @ [pts]) = Inr r"
        using "3.prems" by (intro "3.IH" [OF p r [symmetric] Some False]) simp
      with p r Some False show ?thesis by simp
    qed
  qed
qed

lemma twoSlices_fields:
  "\<forall>l\<in>set twoSlices. \<forall>t\<in>set (split l). digitStod t \<noteq> StodRange"
  by (simp add: digitStod_def)

lemma twoSlices_import:
  "extractContoursFromCsvFile digitStod (\<lambda>p. p) (\<lambda>p q. p = q) (\<lambda>c. c)
     (Some twoSlices) False zeroVars emptyOut
   = Inr (True,
      \<lparr>contours = [[[(0, 0), (1, 0), (0, 1)]], [[(0, 0), (2, 0), (0, 2)]]],
         surfaceIdx = [[[0, 0, 0]], [[0, 0, 0]]],
         centerLine = [(0, 0), (1, 0)], normals = [(0, 1), (0, 1)],
         scalingFactorsOut = [(1, 1), (1, 1)]\<rparr>,
      [[(0, 0), (1, 0), (0, 1), (0, 0)], [(0, 0), (2, 0), (0, 2), (0, 0)]])"
  by code_simp

text \<open>
  For a file that can be opened and whose fields do not overflow a double, and output
  vectors that are empty at the call, \<open>extractContoursFromCsvFile\<close> returns, and it returns
  false whenever a slice that was read has fewer than three points, and whenever fewer than
  two slices with at least three points were read. When it returns true every slice read
  has been stored, in order, and a slice whose last point equals its first point is stored
  without that last point (simplified when asked for and longer than ten points).
\<close>

lemma extractContoursFromCsvFile_checks:
  assumes "\<forall>l\<in>set ls. \<forall>t\<in>set (split l). stod t \<noteq> StodRange"
  shows "\<exists>ok out parsed.
     extractContoursFromCsvFile stod nv eq smp (Some ls) sc vars emptyOut = Inr (ok, out, parsed)
     \<and> ((\<exists>pts\<in>set parsed. length pts < 3) \<longrightarrow> \<not> ok)
     \<and> (length (filter (\<lambda>pts. 3 \<le> length pts) parsed) < 2 \<longrightarrow> \<not> ok)
     \<and> (ok \<longrightarrow> contours out = map (\<lambda>pts. [finishContour eq smp sc pts]) parsed)
     \<and> (ok \<longrightarrow> (\<forall>k < length parsed. eq (hd (parsed ! k)) (last (parsed ! k)) \<longrightarrow>
            contours out ! k =
              [if sc \<and> 10 < length (butlast (parsed ! k))
               then smp (butlast (parsed ! k)) else butlast (parsed ! k)]))"
proof (cases "ls = []")
  case True
  then show ?thesis
    by (auto simp add: extractContoursFromCsvFile_def intro: exI [of _ False])
next
  case False
  from readSlices_returns [OF assms, of nv eq smp sc vars emptyOut "[]"]
  obtain r where rs: "readSlices stod nv eq smp sc ls vars emptyOut [] = Inr r" by blast
  obtain abort out parsed where r: "r = (abort, out, parsed)" by (cases r)
  from readSlices_inv [OF rs [unfolded r]]
  have inv: "\<not> abort \<longrightarrow> (\<forall>pts\<in>set parsed. 3 \<le> length pts)
           \<and> contours out = map (\<lambda>pts. [finishContour eq smp sc pts]) parsed"
    by (simp add: emptyOut_def)
  define ok where "ok = (\<not> (abort \<or> length (contours out) < 2))"
  have res: "extractContoursFromCsvFile stod nv eq smp (Some ls) sc vars emptyOut = Inr (ok, out, parsed)"
    using False rs r by (simp add: extractContoursFromCsvFile_def ok_def)
  have a: "(\<exists>pts\<in>set parsed. length pts < 3) \<longrightarrow> \<not> ok"
    using inv by (auto simp: ok_def)
  have f: "ok \<longrightarrow> filter (\<lambda>pts. 3 \<le> length pts) parsed = parsed"
    using inv by (auto simp: ok_def)
  have b: "length (filter (\<lambda>pts. 3 \<le> length pts) parsed) < 2 \<longrightarrow> \<not> ok"
  proof (intro impI notI)
    assume l: "length (filter (\<lambda>pts. 3 \<le> length pts) parsed) < 2" and "ok"
    with f have "length parsed < 2" by simp
    moreover from \<open>ok\<close> inv have "length (contours out) = length parsed" by (simp add: ok_def)
    ultimately show False using \<open>ok\<close> by (simp add: ok_def)
  qed
  have c: "ok \<longrightarrow> contours out = map (\<lambda>pts. [finishContour eq smp sc pts]) parsed"
    using inv by (simp add: ok_def)
  have d: "ok \<longrightarrow> (\<forall>k < length parsed. eq (hd (parsed ! k)) (last (parsed ! k)) \<longrightarrow>
            contours out ! k =
              [if sc \<and> 10 < length (butlast (parsed ! k))
               then smp (butlast (parsed ! k)) else butlast (parsed ! k)])"
    using c by (simp add: finishContour_def Let_def)
  from res a b c d show ?thesis by blast
qed

lemma extractContoursFromCsvFile_checks_example:
  "(\<exists>out parsed.
        extractContoursFromCsvFile digitStod (\<lambda>p. p) (\<lambda>p q. p = q) (\<lambda>c. c)
          (Some twoSlices) False zeroVars emptyOut = Inr (True, out, parsed)
        \<and> parsed = [[(0, 0), (1, 0), (0, 1), (0, 0)], [(0, 0), (2, 0), (0, 2), (0, 0)]]
        \<and> contours out ! 0 = [[(0, 0), (1, 0), (0, 1)]]
        \<and> contours out ! 1 = [[(0, 0), (2, 0), (0, 2)]])"
  using extractContoursFromCsvFile_checks
    [OF twoSlices_fields, of "\<lambda>p. p" "\<lambda>p q. p = q" "\<lambda>c. c" False zeroVars]
  by (simp add: twoSlices_import)

text \<open>
  C6 does not hold for every file. The conversion \<open>strToDouble\<close>, commented as failsafe,
  catches \<^verbatim>\<open>std::invalid_argument\<close> only. On a file with one good slice followed by a field
  beyond the range of a double, fewer than two slices are parsed and the import does not
  return false: the exception \<^verbatim>\<open>std::out_of_range\<close> of \<^verbatim>\<open>stod\<close> leaves the function.
\<close>

theorem extractContoursFromCsvFile_out_of_range:
  "extractContoursFromCsvFile rangeStod (\<lambda>p. p) (\<lambda>p q. p = q) (\<lambda>c. c)
     (Some overflowFile) False zeroVars emptyOut = Inl StodOutOfRange"
  by code_simp

end
